theory Spec2Isabelle
  imports Main "HOL-Library.Char_ord" "HOL-Library.List_Lexorder"
begin

unbundle bit_operations_syntax

section \<open>Python strings\<close>

text \<open>
  Python \<open>str\<close> values are modelled as \<open>string\<close>. The operations below are the ones
  \<open>export_tarball.py\<close> applies to paths: \<open>s.startswith(p)\<close>, \<open>s.endswith(p)\<close>,
  \<open>sub in s\<close>, \<open>s.split(sep)\<close>, \<open>s.lstrip('/')\<close> and \<open>s.rstrip('/')\<close>.
\<close>

fun startswith :: "string \<Rightarrow> string \<Rightarrow> bool" where
  "startswith s [] = True"
| "startswith [] (p # ps) = False"
| "startswith (c # cs) (p # ps) = (c = p \<and> startswith cs ps)"

definition endswith :: "string \<Rightarrow> string \<Rightarrow> bool" where
  "endswith s p = startswith (rev s) (rev p)"

text \<open>\<open>str_in sub s\<close> is Python's \<open>sub in s\<close> on strings.\<close>

fun str_in :: "string \<Rightarrow> string \<Rightarrow> bool" where
  "str_in sub [] = (sub = [])"
| "str_in sub (c # cs) = (startswith (c # cs) sub \<or> str_in sub cs)"

fun str_split :: "string \<Rightarrow> char \<Rightarrow> string list" where
  "str_split [] sep = [[]]"
| "str_split (c # cs) sep =
     (if c = sep then [] # str_split cs sep
      else (case str_split cs sep of
              [] \<Rightarrow> [[c]]
            | x # xs \<Rightarrow> (c # x) # xs))"

definition lstrip_slash :: "string \<Rightarrow> string" where
  "lstrip_slash s = dropWhile (\<lambda>c. c = CHR ''/'') s"

definition rstrip_slash :: "string \<Rightarrow> string" where
  "rstrip_slash s = rev (dropWhile (\<lambda>c. c = CHR ''/'') (rev s))"

section \<open>The \<open>os.path\<close> functions used by the exporter (POSIX flavour)\<close>

datatype exc = TypeError | ValueError | OSError

text \<open>\<open>os.path.split(p)\<close>: cut after the last slash; strip trailing slashes from the
  head unless the head consists of slashes only.\<close>

definition path_split :: "string \<Rightarrow> string \<times> string" where
  "path_split p =
     (let tail = rev (takeWhile (\<lambda>c. c \<noteq> CHR ''/'') (rev p));
          head = take (length p - length tail) p
      in (if head \<noteq> [] \<and> \<not> list_all (\<lambda>c. c = CHR ''/'') head
          then rstrip_slash head else head, tail))"

definition basename :: "string \<Rightarrow> string" where
  "basename p = rev (takeWhile (\<lambda>c. c \<noteq> CHR ''/'') (rev p))"

text \<open>\<open>os.path.join(a, b)\<close> for two arguments.\<close>

definition path_join :: "string \<Rightarrow> string \<Rightarrow> string" where
  "path_join a b =
     (if startswith b ''/'' then b
      else if a = [] \<or> endswith a ''/'' then a @ b
      else a @ ''/'' @ b)"

definition norm_step :: "nat \<Rightarrow> string list \<Rightarrow> string \<Rightarrow> string list" where
  "norm_step initial_slashes new_comps cmp =
     (if cmp = [] \<or> cmp = ''.'' then new_comps
      else if cmp \<noteq> ''..'' \<or> (initial_slashes = 0 \<and> new_comps = [])
                \<or> (new_comps \<noteq> [] \<and> last new_comps = ''..'')
           then new_comps @ [cmp]
      else if new_comps \<noteq> [] then butlast new_comps
      else new_comps)"

fun sep_join :: "string list \<Rightarrow> string" where
  "sep_join [] = []"
| "sep_join [x] = x"
| "sep_join (x # y # ys) = x @ ''/'' @ sep_join (y # ys)"

definition normpath :: "string \<Rightarrow> string" where
  "normpath path =
     (if path = [] then ''.''
      else
        let initial_slashes =
              (if startswith path ''/''
               then (if startswith path ''//'' \<and> \<not> startswith path ''///'' then 2 else 1)
               else (0::nat));
            new_comps = foldl (norm_step initial_slashes) [] (str_split path CHR ''/'');
            p = replicate initial_slashes CHR ''/'' @ sep_join new_comps
        in if p = [] then ''.'' else p)"

text \<open>\<open>os.path.abspath\<close> reads the current working directory of the process, which is
  the explicit argument \<open>cwd\<close> here.\<close>

definition abspath :: "string \<Rightarrow> string \<Rightarrow> string" where
  "abspath cwd path =
     normpath (if startswith path ''/'' then path else path_join cwd path)"

fun commonprefix :: "'a list \<Rightarrow> 'a list \<Rightarrow> 'a list" where
  "commonprefix (x # xs) (y # ys) = (if x = y then x # commonprefix xs ys else [])"
| "commonprefix _ _ = []"

text \<open>\<open>os.path.relpath(path, start)\<close>; it raises \<open>ValueError\<close> on an empty path.\<close>

definition relpath :: "string \<Rightarrow> string \<Rightarrow> string \<Rightarrow> exc + string" where
  "relpath cwd path start =
     (if path = [] then Inl ValueError
      else
        let start_list = filter (\<lambda>x. x \<noteq> []) (str_split (abspath cwd start) CHR ''/'');
            path_list = filter (\<lambda>x. x \<noteq> []) (str_split (abspath cwd path) CHR ''/'');
            i = length (commonprefix start_list path_list);
            rel_list = replicate (length start_list - i) ''..'' @ drop i path_list
        in (case rel_list of
              [] \<Rightarrow> Inr ''.''
            | a # p \<Rightarrow> Inr (foldl path_join a p)))"

section \<open>The rule tables of \<open>export_tarball.py\<close>\<close>

definition nonessential_dirs :: "string list" where
  "nonessential_dirs =
     [''build/linux/debian_bullseye_amd64-sysroot'',
      ''build/linux/debian_bullseye_i386-sysroot'',
      ''third_party/blink/tools'',
      ''third_party/blink/web_tests'',
      ''third_party/hunspell_dictionaries'',
      ''third_party/hunspell/tests'',
      ''third_party/instrumented_libs'',
      ''third_party/jdk/current'',
      ''third_party/jdk/extras'',
      ''third_party/liblouis/src/tests/braille-specs'',
      ''third_party/llvm-build'',
      ''third_party/xdg-utils/tests'',
      ''v8/test'']"

definition ESSENTIAL_FILES :: "string list" where
  "ESSENTIAL_FILES =
     [''chrome/test/data/webui/i18n_process_css_test.html'',
      ''chrome/test/data/webui/mojo/foobar.mojom'',
      ''chrome/test/data/webui/web_ui_test.mojom'',
      ''v8/test/torque/test-torque.tq'']"

definition ESSENTIAL_GIT_DIRS :: "string list" where
  "ESSENTIAL_GIT_DIRS = [''third_party/rust-src/'']"

definition TEST_DIRS :: "string list" where
  "TEST_DIRS =
     [''chrome/test/data'',
      ''content/test/data'',
      ''courgette/testdata'',
      ''extensions/test/data'',
      ''media/test/data'',
      ''native_client/src/trusted/service_runtime/testdata'',
      ''third_party/breakpad/breakpad/src/processor/testdata'',
      ''third_party/catapult/tracing/test_data'']"

section \<open>The source tree\<close>

text \<open>
  What \<open>lstat\<close> reports for a filesystem object: the permission bits and the ownership and
  modification time that the archive normalisation overwrites.
\<close>

record stat =
  st_mode :: nat
  st_uid :: nat
  st_gid :: nat
  st_uname :: string
  st_gname :: string
  st_mtime :: int

text \<open>
  A filesystem object is a regular file with its bytes, a directory with its entries in the
  order \<open>os.listdir\<close> enumerates them, or a symbolic link with its link text and the object
  it resolves to (\<open>None\<close> for a dangling link). Special files are outside the model.
\<close>

datatype node =
    Reg stat string
  | Dir stat "(string \<times> node) list"
  | Lnk stat string "node option"

fun resolve :: "node \<Rightarrow> node option" where
  "resolve (Lnk st l None) = None"
| "resolve (Lnk st l (Some t)) = resolve t"
| "resolve (Reg st c) = Some (Reg st c)"
| "resolve (Dir st es) = Some (Dir st es)"

text \<open>\<open>os.path.islink\<close> uses \<open>lstat\<close>; \<open>os.path.exists\<close>, \<open>os.path.isfile\<close> and
  \<open>os.path.isdir\<close> follow symbolic links.\<close>

fun islink :: "node \<Rightarrow> bool" where
  "islink (Lnk st l t) = True"
| "islink _ = False"

definition path_exists :: "node \<Rightarrow> bool" where
  "path_exists nd = (resolve nd \<noteq> None)"

definition isfile :: "node \<Rightarrow> bool" where
  "isfile nd = (case resolve nd of Some (Reg st c) \<Rightarrow> True | _ \<Rightarrow> False)"

definition isdir :: "node \<Rightarrow> bool" where
  "isdir nd = (case resolve nd of Some (Dir st es) \<Rightarrow> True | _ \<Rightarrow> False)"

section \<open>The archive writer \<open>MyTarFile\<close>\<close>

text \<open>The private attributes that the setters of \<open>MyTarFile\<close> store.\<close>

record MyTarFile =
  self_remove_nonessential_files :: bool
  self_verbose :: bool
  self_src_dir :: string
  self_mtime :: int

datatype file_type = REGTYPE | DIRTYPE | SYMTYPE

text \<open>A \<open>TarInfo\<close> member header together with the bytes that follow it in the stream.\<close>

record TarInfo =
  ti_name :: string
  ti_type :: file_type
  mode :: nat
  uid :: nat
  gid :: nat
  uname :: string
  gname :: string
  mtime :: int
  linkname :: string
  data :: string

text \<open>What a run does, in order: a line printed on standard output, or a member written
  to the archive stream.\<close>

datatype event = Print string | Member TarInfo

definition prints :: "event list \<Rightarrow> string list" where
  "prints evs = concat (map (\<lambda>e. case e of Print l \<Rightarrow> [l] | Member ti \<Rightarrow> []) evs)"

definition members :: "event list \<Rightarrow> TarInfo list" where
  "members evs = concat (map (\<lambda>e. case e of Print l \<Rightarrow> [] | Member ti \<Rightarrow> [ti]) evs)"

definition report_skipped :: "MyTarFile \<Rightarrow> string \<Rightarrow> event list" where
  "report_skipped self name = (if self_verbose self then [Print (''D'' @ [CHR 0x09] @ name)] else [])"

definition report_added :: "MyTarFile \<Rightarrow> string \<Rightarrow> event list" where
  "report_added self name = (if self_verbose self then [Print (''A'' @ [CHR 0x09] @ name)] else [])"

definition S_IWUSR :: nat where
  "S_IWUSR = 128"

text \<open>\<open>MyTarFile.__filter\<close>.\<close>

definition tar_filter :: "MyTarFile \<Rightarrow> TarInfo \<Rightarrow> TarInfo" where
  "tar_filter self tar_info =
     tar_info\<lparr>mtime := self_mtime self,
              mode := mode tar_info OR S_IWUSR,
              uid := 0,
              gid := 0,
              uname := ''0'',
              gname := ''0''\<rparr>"

datatype decision = Skipped | Added

text \<open>The loop over \<open>set(nonessential_dirs) | set(TEST_DIRS)\<close>. Python does not fix the
  iteration order of a set, so the order is the argument \<open>dirs\<close>. The result is \<open>True\<close>
  when the loop reaches \<open>__report_skipped\<close> and returns.\<close>

fun trim_loop :: "string list \<Rightarrow> string \<Rightarrow> bool \<Rightarrow> bool" where
  "trim_loop [] rel_name is_file = False"
| "trim_loop (nonessential_dir # rest) rel_name is_file =
     (if startswith rel_name nonessential_dir \<and> is_file then True
      else trim_loop rest rel_name is_file)"

definition keep_file :: "string \<Rightarrow> string \<Rightarrow> bool" where
  "keep_file file_name rel_name =
     (str_in ''.gyp'' file_name \<or> str_in ''.gn'' file_name \<or>
      str_in ''.isolate'' file_name \<or> str_in ''.grd'' file_name \<or>
      endswith file_name ''.pydeps'' \<or> rel_name \<in> set ESSENTIAL_FILES)"

text \<open>
  The body of \<open>MyTarFile.add\<close> up to the call of \<open>tarfile.TarFile.add\<close>: \<open>Skipped\<close> where
  the source reports the name as skipped and returns, \<open>Added\<close> where it reports it as added.
  \<open>nd\<close> is the filesystem object found at \<open>name\<close>.
\<close>

definition add_decision ::
  "MyTarFile \<Rightarrow> string \<Rightarrow> string list \<Rightarrow> string \<Rightarrow> node \<Rightarrow> exc + decision" where
  "add_decision self cwd dirs name nd =
     (if islink nd \<and> \<not> path_exists nd then Inr Skipped
      else
        case relpath cwd name (self_src_dir self) of
          Inl e \<Rightarrow> Inl e
        | Inr rel_name \<Rightarrow>
            (let file_path = fst (path_split name);
                 file_name = snd (path_split name)
             in if file_name = ''__pycache__'' \<or> endswith file_name ''.pyc'' then Inr Skipped
                else if file_name \<in> set [''.svn'', ''out'']
                        \<and> \<not> str_in ''node_modules'' file_path then Inr Skipped
                else if file_name = ''.git''
                        \<and> \<not> list_ex (startswith rel_name) ESSENTIAL_GIT_DIRS then Inr Skipped
                else if self_remove_nonessential_files self then
                  (if str_in ''ChangeLog'' name then Inr Skipped
                   else if \<not> keep_file file_name rel_name
                           \<and> trim_loop dirs rel_name (isfile nd) then Inr Skipped
                   else Inr Added)
                else Inr Added))"

text \<open>\<open>TarFile.gettarinfo(name, arcname)\<close> of the standard library: the member name is
  \<open>arcname\<close> without leading slashes, the mode is \<open>stat.S_IMODE(st_mode)\<close>, and the other
  fields are what \<open>lstat\<close> reports. Every regular file is taken to have one link, so that
  no member is a hard link to an earlier one.\<close>

fun node_stat :: "node \<Rightarrow> stat" where
  "node_stat (Reg st c) = st"
| "node_stat (Dir st es) = st"
| "node_stat (Lnk st l t) = st"

definition gettarinfo :: "string \<Rightarrow> node \<Rightarrow> TarInfo" where
  "gettarinfo arcname nd =
     \<lparr>ti_name = lstrip_slash arcname,
      ti_type = (case nd of Reg st c \<Rightarrow> REGTYPE | Dir st es \<Rightarrow> DIRTYPE | Lnk st l t \<Rightarrow> SYMTYPE),
      mode = take_bit 12 (st_mode (node_stat nd)),
      uid = st_uid (node_stat nd),
      gid = st_gid (node_stat nd),
      uname = st_uname (node_stat nd),
      gname = st_gname (node_stat nd),
      mtime = st_mtime (node_stat nd),
      linkname = (case nd of Lnk st l t \<Rightarrow> l | _ \<Rightarrow> []),
      data = (case nd of Reg st c \<Rightarrow> c | _ \<Rightarrow> [])\<rparr>"

text \<open>A \<open>for\<close> loop whose body may raise: the events of the iterations that ran are kept,
  and the first exception ends the loop.\<close>

fun for_each :: "('a \<Rightarrow> event list \<times> exc option) \<Rightarrow> 'a list \<Rightarrow> event list \<times> exc option" where
  "for_each body [] = ([], None)"
| "for_each body (x # xs) =
     (case body x of
        (evs, Some e) \<Rightarrow> (evs, Some e)
      | (evs, None) \<Rightarrow> (case for_each body xs of (evs', r) \<Rightarrow> (evs @ evs', r)))"

lemma for_each_cong [fundef_cong]:
  "xs = ys \<Longrightarrow> (\<And>x. x \<in> set ys \<Longrightarrow> f x = g x) \<Longrightarrow> for_each f xs = for_each g ys"
  by (induction ys arbitrary: xs) (auto split: prod.splits option.splits)

text \<open>
  \<open>MyTarFile.add\<close>. After the decision it calls \<open>tarfile.TarFile.add\<close> with
  \<open>filter=self.__filter\<close>; the standard library builds the member with \<open>gettarinfo\<close>,
  applies the filter, writes the member, and for a directory calls \<open>self.add\<close> on
  \<open>os.path.join(name, f)\<close> and \<open>os.path.join(arcname, f)\<close> for every \<open>f\<close> in
  \<open>sorted(os.listdir(name))\<close>.
\<close>

fun add ::
  "MyTarFile \<Rightarrow> string \<Rightarrow> string list \<Rightarrow> string \<Rightarrow> string \<Rightarrow> node \<Rightarrow> event list \<times> exc option" where
  "add self cwd dirs name arcname nd =
     (case add_decision self cwd dirs name nd of
        Inl e \<Rightarrow> ([], Some e)
      | Inr Skipped \<Rightarrow> (report_skipped self name, None)
      | Inr Added \<Rightarrow>
          (let written = report_added self name @ [Member (tar_filter self (gettarinfo arcname nd))]
           in case nd of
                Dir st es \<Rightarrow>
                  (case for_each
                          (\<lambda>(f, c). add self cwd dirs (path_join name f) (path_join arcname f) c)
                          (sort_key fst es) of
                     (evs, r) \<Rightarrow> (written @ evs, r))
              | _ \<Rightarrow> (written, None)))"

section \<open>The program \<open>main\<close>\<close>

text \<open>The result of \<open>parser.parse_args(argv)\<close>: an option that was not given is \<open>None\<close>
  (\<open>False\<close> for the flags; the source only tests them for truth).\<close>

record options =
  opt_basename :: "string option"
  opt_remove_nonessential_files :: bool
  opt_test_data :: bool
  opt_xz :: bool
  opt_verbose :: bool
  opt_src_dir :: "string option"
  opt_version :: "string option"

text \<open>
  What a run reads from outside: the working directory of the process, the object that
  \<open>lstat\<close> finds at \<open>options.src_dir\<close> (\<open>None\<close> when nothing is there), the order in which
  this process iterates over \<open>set(nonessential_dirs) | set(TEST_DIRS)\<close>, and the exit status
  of the \<open>xz\<close> subprocess. Opening the output file and starting \<open>xz\<close> are taken to succeed, and
  every object of the tree to be readable.
\<close>

record world =
  getcwd :: string
  src_root :: "node option"
  set_order :: "string list"
  xz_status :: int

text \<open>No object has the empty path.\<close>

definition lstat_src :: "world \<Rightarrow> string \<Rightarrow> node option" where
  "lstat_src w src_dir = (if src_dir = [] then None else src_root w)"

text \<open>Path resolution below a node: every component but the last is followed through
  symbolic links; the last one is returned as \<open>lstat\<close> sees it.\<close>

fun lookup :: "node \<Rightarrow> string list \<Rightarrow> node option" where
  "lookup nd [] = Some nd"
| "lookup nd (c # cs) =
     (case resolve nd of
        Some (Dir st es) \<Rightarrow> (case map_of es c of Some ch \<Rightarrow> lookup ch cs | None \<Rightarrow> None)
      | _ \<Rightarrow> None)"

definition lstat_below :: "world \<Rightarrow> string \<Rightarrow> string \<Rightarrow> node option" where
  "lstat_below w src_dir rel =
     (case lstat_src w src_dir of
        None \<Rightarrow> None
      | Some nd \<Rightarrow> lookup nd (str_split rel CHR ''/''))"

text \<open>Python's \<open>int(s)\<close> on an ASCII string: surrounding whitespace, an optional sign, and
  decimal digits with single underscores between them; \<open>None\<close> stands for \<open>ValueError\<close>.\<close>

definition py_isspace :: "char \<Rightarrow> bool" where
  "py_isspace c = (c \<in> set [CHR 0x09, CHR 0x0A, CHR 0x0B, CHR 0x0C, CHR 0x0D, CHR 0x20])"

definition py_strip :: "string \<Rightarrow> string" where
  "py_strip s = rev (dropWhile py_isspace (rev (dropWhile py_isspace s)))"

definition is_digit :: "char \<Rightarrow> bool" where
  "is_digit c = (c \<in> set ''0123456789'')"

definition digit_val :: "char \<Rightarrow> int" where
  "digit_val c = int (of_char c) - 48"

fun valid_digits :: "string \<Rightarrow> bool" where
  "valid_digits [] = False"
| "valid_digits [c] = is_digit c"
| "valid_digits (c # d # cs) =
     (is_digit c \<and> (if d = CHR ''_'' then valid_digits cs else valid_digits (d # cs)))"

definition digits_value :: "string \<Rightarrow> int" where
  "digits_value s = foldl (\<lambda>a c. 10 * a + digit_val c) 0 (filter (\<lambda>c. c \<noteq> CHR ''_'') s)"

definition py_int :: "string \<Rightarrow> int option" where
  "py_int s =
     (let t = py_strip s;
          neg = (case t of c # r \<Rightarrow> c = CHR ''-'' | [] \<Rightarrow> False);
          body = (case t of c # r \<Rightarrow> (if c = CHR ''-'' \<or> c = CHR ''+'' then r else t) | [] \<Rightarrow> t)
      in if valid_digits body
         then Some (if neg then - digits_value body else digits_value body)
         else None)"

text \<open>Lines 165 to 167: open the timestamp file below the source directory and convert
  what it holds.\<close>

definition read_timestamp :: "world \<Rightarrow> string \<Rightarrow> exc + int" where
  "read_timestamp w src_dir =
     (case lstat_below w src_dir ''build/util/LASTCHANGE.committime'' of
        None \<Rightarrow> Inl OSError
      | Some nd \<Rightarrow>
          (case resolve nd of
             Some (Reg st c) \<Rightarrow> (case py_int c of None \<Rightarrow> Inl ValueError | Some t \<Rightarrow> Inr t)
           | _ \<Rightarrow> Inl OSError))"

text \<open>
  What a run leaves behind: the value \<open>main\<close> returns or the exception that leaves it, the
  lines printed, and the output file, if one was created, with its name and the members fed
  to the compressor.
\<close>

record outcome =
  returned :: "exc + int"
  stdout :: "string list"
  tarball :: "(string \<times> TarInfo list) option"

definition skip_message :: "string \<Rightarrow> string" where
  "skip_message test_dir = [CHR 0x22] @ test_dir @ [CHR 0x22] @ '' not present; skipping.''"

text \<open>The body of the loop over \<open>TEST_DIRS\<close> in test-data mode.\<close>

definition test_data_step ::
  "world \<Rightarrow> MyTarFile \<Rightarrow> string \<Rightarrow> string \<Rightarrow> string \<Rightarrow> event list \<times> exc option" where
  "test_data_step w archive src_dir output_basename directory =
     (let test_dir = path_join src_dir directory
      in case lstat_below w src_dir directory of
           None \<Rightarrow> ([Print (skip_message test_dir)], None)
         | Some nd \<Rightarrow>
             if \<not> isdir nd then ([Print (skip_message test_dir)], None)
             else add archive (getcwd w) (set_order w) test_dir
                    (path_join output_basename directory) nd)"

text \<open>Line 155: \<open>options.basename or os.path.basename(args[0])\<close>.\<close>

definition output_basename :: "options \<Rightarrow> string list \<Rightarrow> string" where
  "output_basename options args =
     (case opt_basename options of
        None \<Rightarrow> basename (args ! 0)
      | Some b \<Rightarrow> if b = [] then basename (args ! 0) else b)"

text \<open>Lines 161 to 167: the archive object after its four setters have run.\<close>

definition configured :: "options \<Rightarrow> string \<Rightarrow> int \<Rightarrow> MyTarFile" where
  "configured options src_dir timestamp =
     \<lparr>self_remove_nonessential_files = opt_remove_nonessential_files options,
      self_verbose = opt_verbose options,
      self_src_dir = src_dir,
      self_mtime = timestamp\<rparr>"

text \<open>Lines 168 to 180: the walk, in test-data mode or over the whole source directory.\<close>

definition walk ::
  "world \<Rightarrow> options \<Rightarrow> string list \<Rightarrow> string \<Rightarrow> node \<Rightarrow> int \<Rightarrow> event list \<times> exc option" where
  "walk w options args src_dir root timestamp =
     (if opt_test_data options
      then for_each
             (test_data_step w (configured options src_dir timestamp) src_dir
                (output_basename options args))
             TEST_DIRS
      else add (configured options src_dir timestamp) (getcwd w) (set_order w) src_dir
             (output_basename options args) root)"

definition main :: "world \<Rightarrow> options \<Rightarrow> string list \<Rightarrow> outcome" where
  "main w options args =
     (if length args \<noteq> 1 then
        \<lparr>returned = Inr 1,
         stdout = [''You must provide only one argument: output file name'',
                   ''(without .tar.xz extension).''],
         tarball = None\<rparr>
      else if opt_version options = None \<or> opt_version options = Some [] then
        \<lparr>returned = Inr 1,
         stdout = [''A version number must be provided via the --version option.''],
         tarball = None\<rparr>
      else
        case opt_src_dir options of
          None \<Rightarrow> \<lparr>returned = Inl TypeError, stdout = [], tarball = None\<rparr>
        | Some src_dir \<Rightarrow>
            (case lstat_src w src_dir of
               None \<Rightarrow>
                 \<lparr>returned = Inr 1,
                  stdout = [''Cannot find the src directory '' @ src_dir],
                  tarball = None\<rparr>
             | Some root \<Rightarrow>
                 if \<not> path_exists root then
                   \<lparr>returned = Inr 1,
                    stdout = [''Cannot find the src directory '' @ src_dir],
                    tarball = None\<rparr>
                 else
                   (let output_fullname = args ! 0 @ ''.tar.xz''
                    in case read_timestamp w src_dir of
                         Inl e \<Rightarrow>
                           \<lparr>returned = Inl e, stdout = [],
                            tarball = Some (output_fullname, [])\<rparr>
                       | Inr timestamp \<Rightarrow>
                           (case walk w options args src_dir root timestamp of
                              (evs, Some e) \<Rightarrow>
                                \<lparr>returned = Inl e, stdout = prints evs,
                                 tarball = Some (output_fullname, members evs)\<rparr>
                            | (evs, None) \<Rightarrow>
                                if xz_status w \<noteq> 0 then
                                  \<lparr>returned = Inr 1,
                                   stdout = prints evs @ [''xz -9 failed!''],
                                   tarball = Some (output_fullname, members evs)\<rparr>
                                else
                                  \<lparr>returned = Inr 0, stdout = prints evs,
                                   tarball = Some (output_fullname, members evs)\<rparr>))))"

text \<open>Lines 190 and 191, \<open>sys.exit(main(sys.argv[1:]))\<close>: the exit status of the process
  is the value \<open>main\<close> returns; an exception that leaves \<open>main\<close> ends the interpreter with
  status 1.\<close>

definition exit_status :: "outcome \<Rightarrow> int" where
  "exit_status out = (case returned out of Inr code \<Rightarrow> code | Inl e \<Rightarrow> 1)"

section \<open>Notions used to state the claims\<close>

text \<open>
  The conditions under which \<open>MyTarFile.add\<close> returns before it reaches the keep test of a
  trimmed run: lines 87, 93, 96 to 100, 103 to 105 and 111 of the source.
\<close>

definition skipped_by_earlier_rule :: "string \<Rightarrow> string \<Rightarrow> node \<Rightarrow> bool" where
  "skipped_by_earlier_rule name rel_name nd =
     ((islink nd \<and> \<not> path_exists nd)
      \<or> snd (path_split name) = ''__pycache__''
      \<or> endswith (snd (path_split name)) ''.pyc''
      \<or> (snd (path_split name) \<in> set [''.svn'', ''out'']
           \<and> \<not> str_in ''node_modules'' (fst (path_split name)))
      \<or> (snd (path_split name) = ''.git''
           \<and> \<not> list_ex (startswith rel_name) ESSENTIAL_GIT_DIRS)
      \<or> str_in ''ChangeLog'' name)"

text \<open>All objects of a tree, the targets of its symbolic links included.\<close>

fun subnodes :: "node \<Rightarrow> node list" where
  "subnodes (Reg st c) = [Reg st c]"
| "subnodes (Dir st es) = Dir st es # concat (map (\<lambda>(f, c). subnodes c) es)"
| "subnodes (Lnk st l t) = Lnk st l t # (case t of None \<Rightarrow> [] | Some t' \<Rightarrow> subnodes t')"

text \<open>
  The part of a source tree that a run can observe: directory entries ordered by name,
  whatever order the filesystem enumerates them in, and of the \<open>lstat\<close> fields the mode only.
\<close>

definition strip_stat :: "stat \<Rightarrow> stat" where
  "strip_stat st = \<lparr>st_mode = st_mode st, st_uid = 0, st_gid = 0, st_uname = [],
                    st_gname = [], st_mtime = 0\<rparr>"

fun canon :: "node \<Rightarrow> node" where
  "canon (Reg st c) = Reg (strip_stat st) c"
| "canon (Dir st es) = Dir (strip_stat st) (sort_key fst (map (\<lambda>(f, c). (f, canon c)) es))"
| "canon (Lnk st l t) = Lnk (strip_stat st) l (case t of None \<Rightarrow> None | Some t' \<Rightarrow> Some (canon t'))"

text \<open>A world with its source tree reduced to what a run can observe, the iteration order
  \<open>ds\<close>, and a compressor that succeeds.\<close>

definition observed :: "world \<Rightarrow> string list \<Rightarrow> world" where
  "observed w ds = \<lparr>getcwd = getcwd w, src_root = map_option canon (src_root w),
                     set_order = ds, xz_status = 0\<rparr>"

text \<open>\<open>os.path.exists(options.src_dir)\<close> and
  \<open>os.path.isdir(os.path.join(options.src_dir, directory))\<close>.\<close>

definition src_dir_exists :: "world \<Rightarrow> string \<Rightarrow> bool" where
  "src_dir_exists w src_dir =
     (case lstat_src w src_dir of None \<Rightarrow> False | Some root \<Rightarrow> path_exists root)"

definition test_dir_present :: "world \<Rightarrow> string \<Rightarrow> string \<Rightarrow> bool" where
  "test_dir_present w src_dir directory =
     (case lstat_below w src_dir directory of None \<Rightarrow> False | Some nd \<Rightarrow> isdir nd)"

text \<open>The objects below a path in the order of the walk, each with its path on disk and its
  path in the archive: the object itself, then, for a directory, what lies below each of its
  entries, in sorted order. A symbolic link is one object, whatever it points to.\<close>

fun entries :: "string \<Rightarrow> string \<Rightarrow> node \<Rightarrow> (string \<times> string \<times> node) list" where
  "entries name arcname nd =
     (name, arcname, nd) #
     (case nd of
        Dir st es \<Rightarrow>
          concat (map (\<lambda>(f, c). entries (path_join name f) (path_join arcname f) c)
                    (sort_key fst es))
      | _ \<Rightarrow> [])"

text \<open>The decimal numeral of a natural number.\<close>

definition digit_char :: "nat \<Rightarrow> char" where
  "digit_char k = ''0123456789'' ! k"

fun decimal :: "nat \<Rightarrow> string" where
  "decimal n = (if n < 10 then [digit_char n] else decimal (n div 10) @ [digit_char (n mod 10)])"

declare entries.simps [simp del]

declare decimal.simps [simp del]

text \<open>The objects below the test directories that are present, in the order of
  \<open>TEST_DIRS\<close>, and the objects a run may visit in either mode.\<close>

definition test_data_entries :: "world \<Rightarrow> string \<Rightarrow> string \<Rightarrow> (string \<times> string \<times> node) list" where
  "test_data_entries w src_dir base =
     concat (map (\<lambda>directory.
                    entries (path_join src_dir directory) (path_join base directory)
                      (the (lstat_below w src_dir directory)))
                 (filter (test_dir_present w src_dir) TEST_DIRS))"

definition candidates ::
  "world \<Rightarrow> options \<Rightarrow> string \<Rightarrow> string \<Rightarrow> node \<Rightarrow> (string \<times> string \<times> node) list" where
  "candidates w options base src_dir root =
     (if opt_test_data options then test_data_entries w src_dir base
      else entries src_dir base root)"

text \<open>No entry of a directory has an empty name or a name with a slash in it.\<close>

fun wf_names :: "node \<Rightarrow> bool" where
  "wf_names (Reg st c) = True"
| "wf_names (Dir st es) = (\<forall>(f, c) \<in> set es. f \<noteq> [] \<and> CHR ''/'' \<notin> set f \<and> wf_names c)"
| "wf_names (Lnk st l t) = (case t of None \<Rightarrow> True | Some t' \<Rightarrow> wf_names t')"

section \<open>Example inputs\<close>

definition ex_stat :: stat where
  "ex_stat = \<lparr>st_mode = 33133, st_uid = 1000, st_gid = 1000, st_uname = ''dev'',
               st_gname = ''staff'', st_mtime = 5\<rparr>"

definition ex_archive :: MyTarFile where
  "ex_archive = \<lparr>self_remove_nonessential_files = True, self_verbose = False,
                  self_src_dir = ''src'', self_mtime = 1700000000\<rparr>"

definition ex_archive_full :: MyTarFile where
  "ex_archive_full = \<lparr>self_remove_nonessential_files = False, self_verbose = False,
                       self_src_dir = ''src'', self_mtime = 1700000000\<rparr>"

definition ex_order :: "string list" where
  "ex_order = nonessential_dirs @ TEST_DIRS"

definition ex_tree :: node where
  "ex_tree =
     Dir ex_stat
       [(''v8'', Dir ex_stat [(''test'', Dir ex_stat [(''b.cc'', Reg ex_stat ''z'')])]),
        (''build'',
           Dir ex_stat
             [(''util'', Dir ex_stat [(''LASTCHANGE.committime'', Reg ex_stat ''1700000000'')])])]"

definition ex_world :: world where
  "ex_world = \<lparr>getcwd = ''/home'', src_root = Some ex_tree, set_order = ex_order,
                xz_status = 0\<rparr>"

definition ex_options :: options where
  "ex_options = \<lparr>opt_basename = None, opt_remove_nonessential_files = True,
                  opt_test_data = False, opt_xz = False, opt_verbose = False,
                  opt_src_dir = Some ''src'', opt_version = Some ''125.0''\<rparr>"

definition ex_world_no_timestamp :: world where
  "ex_world_no_timestamp =
     \<lparr>getcwd = ''/home'', src_root = Some (Dir ex_stat [(''run.sh'', Reg ex_stat ''exit'')]),
      set_order = ex_order, xz_status = 0\<rparr>"

definition ex_world_no_src :: world where
  "ex_world_no_src = \<lparr>getcwd = ''/home'', src_root = None, set_order = ex_order, xz_status = 0\<rparr>"

definition ex_options_no_src_dir :: options where
  "ex_options_no_src_dir = ex_options\<lparr>opt_src_dir := None\<rparr>"

definition ex_world_test_data :: world where
  "ex_world_test_data =
     \<lparr>getcwd = ''/home'',
      src_root = Some (Dir ex_stat
        [(''courgette'', Dir ex_stat [(''testdata'', Dir ex_stat [(''a.bin'', Reg ex_stat ''aa'')])]),
         (''build'',
           Dir ex_stat
             [(''util'', Dir ex_stat [(''LASTCHANGE.committime'', Reg ex_stat ''1700000000'')])])]),
      set_order = ex_order, xz_status = 0\<rparr>"

definition ex_options_test_data :: options where
  "ex_options_test_data = ex_options\<lparr>opt_test_data := True, opt_remove_nonessential_files := False\<rparr>"

definition ex_stat_again :: stat where
  "ex_stat_again = \<lparr>st_mode = 33133, st_uid = 0, st_gid = 0, st_uname = ''root'',
                     st_gname = ''root'', st_mtime = 99\<rparr>"

definition ex_tree_again :: node where
  "ex_tree_again =
     Dir ex_stat_again
       [(''build'',
           Dir ex_stat_again
             [(''util'',
                 Dir ex_stat_again
                   [(''LASTCHANGE.committime'', Reg ex_stat_again ''1700000000'')])]),
        (''v8'', Dir ex_stat_again [(''test'', Dir ex_stat_again [(''b.cc'', Reg ex_stat_again ''z'')])])]"

definition ex_world_again :: world where
  "ex_world_again = \<lparr>getcwd = ''/home'', src_root = Some ex_tree_again,
                      set_order = TEST_DIRS @ nonessential_dirs, xz_status = 1\<rparr>"

definition ex_world_test_data_pyc :: world where
  "ex_world_test_data_pyc =
     \<lparr>getcwd = ''/home'',
      src_root = Some (Dir ex_stat
        [(''courgette'',
            Dir ex_stat
              [(''testdata'',
                  Dir ex_stat [(''a.bin'', Reg ex_stat ''aa''), (''gen.pyc'', Reg ex_stat ''code'')])]),
         (''build'',
           Dir ex_stat
             [(''util'', Dir ex_stat [(''LASTCHANGE.committime'', Reg ex_stat ''1700000000'')])])]),
      set_order = ex_order, xz_status = 0\<rparr>"

definition ex_tree_stamp :: node where
  "ex_tree_stamp =
     Dir ex_stat
       [(''run.sh'', Reg ex_stat ''exit''),
        (''build'',
           Dir ex_stat
             [(''util'',
                 Dir ex_stat
                   [(''LASTCHANGE.committime'', Reg ex_stat (''1700000000'' @ [CHR 0x0A]))])])]"

definition ex_world_stamp :: world where
  "ex_world_stamp = \<lparr>getcwd = ''/home'', src_root = Some ex_tree_stamp, set_order = ex_order,
                      xz_status = 0\<rparr>"

section \<open>Facts about the classifier\<close>

text \<open>The equations that evaluate the path functions and the rules on concrete inputs.\<close>

lemmas path_defs =
  relpath_def abspath_def normpath_def norm_step_def path_join_def path_split_def
  endswith_def rstrip_slash_def lstrip_slash_def basename_def Let_def

lemmas rule_defs =
  add_decision_def keep_file_def skipped_by_earlier_rule_def isfile_def path_exists_def
  isdir_def nonessential_dirs_def TEST_DIRS_def ESSENTIAL_FILES_def ESSENTIAL_GIT_DIRS_def
  ex_order_def ex_archive_def ex_archive_full_def

lemmas main_defs =
  main_def walk_def test_data_step_def read_timestamp_def lstat_below_def lstat_src_def
  src_dir_exists_def test_dir_present_def exit_status_def
  py_int_def py_strip_def py_isspace_def is_digit_def digit_val_def digits_value_def
  output_basename_def configured_def ex_tree_def ex_world_def ex_options_def ex_stat_def
  tar_filter_def gettarinfo_def report_added_def report_skipped_def members_def prints_def
  S_IWUSR_def skip_message_def less_char_def less_eq_char_def

lemmas more_defs =
  ex_world_no_timestamp_def ex_world_no_src_def ex_options_no_src_dir_def
  ex_world_test_data_def ex_options_test_data_def ex_world_test_data_pyc_def

lemmas stamp_defs = ex_tree_stamp_def ex_world_stamp_def

lemmas again_defs = ex_stat_again_def ex_tree_again_def ex_world_again_def

lemma relpath_nonempty: "name \<noteq> [] \<Longrightarrow> \<exists>r. relpath cwd name src = Inr r"
  by (simp add: relpath_def Let_def split: list.splits)

lemma path_split_Nil: "path_split [] = ([], [])"
  by (simp add: path_split_def)

lemma trim_loop_iff:
  "trim_loop dirs rel_name is_file \<longleftrightarrow> is_file \<and> (\<exists>d \<in> set dirs. startswith rel_name d)"
  by (induction dirs) auto

declare add.simps [simp del]

lemma add_error:
  "add_decision self cwd dirs name nd = Inl e \<Longrightarrow>
   add self cwd dirs name arcname nd = ([], Some e)"
  by (subst add.simps) simp

lemma add_Skipped:
  "add_decision self cwd dirs name nd = Inr Skipped \<Longrightarrow>
   add self cwd dirs name arcname nd = (report_skipped self name, None)"
  by (subst add.simps) simp

lemma add_Added_Reg:
  "add_decision self cwd dirs name (Reg st c) = Inr Added \<Longrightarrow>
   add self cwd dirs name arcname (Reg st c) =
     (report_added self name @ [Member (tar_filter self (gettarinfo arcname (Reg st c)))], None)"
  by (subst add.simps) simp

lemma add_Added_Lnk:
  "add_decision self cwd dirs name (Lnk st l t) = Inr Added \<Longrightarrow>
   add self cwd dirs name arcname (Lnk st l t) =
     (report_added self name @ [Member (tar_filter self (gettarinfo arcname (Lnk st l t)))], None)"
  by (subst add.simps) simp

lemma add_Added_Dir:
  "add_decision self cwd dirs name (Dir st es) = Inr Added \<Longrightarrow>
   add self cwd dirs name arcname (Dir st es) =
     (report_added self name @ [Member (tar_filter self (gettarinfo arcname (Dir st es)))]
        @ fst (for_each
                 (\<lambda>(f, c). add self cwd dirs (path_join name f) (path_join arcname f) c)
                 (sort_key fst es)),
      snd (for_each
             (\<lambda>(f, c). add self cwd dirs (path_join name f) (path_join arcname f) c)
             (sort_key fst es)))"
  by (subst add.simps) (simp split: prod.splits)

lemma add_Added:
  assumes "add_decision self cwd dirs name nd = Inr Added"
  shows "\<exists>evs r. add self cwd dirs name arcname nd =
           (report_added self name @ Member (tar_filter self (gettarinfo arcname nd)) # evs, r)"
  using assms by (cases nd) (simp_all add: add_Added_Reg add_Added_Lnk add_Added_Dir)

lemma add_decision_after_earlier_rules:
  assumes "self_remove_nonessential_files self"
    and "relpath cwd name (self_src_dir self) = Inr rel_name"
    and "\<not> skipped_by_earlier_rule name rel_name nd"
  shows "add_decision self cwd dirs name nd =
           (if \<not> keep_file (snd (path_split name)) rel_name \<and> trim_loop dirs rel_name (isfile nd)
            then Inr Skipped else Inr Added)"
  using assms by (auto simp add: add_decision_def skipped_by_earlier_rule_def Let_def)

lemma add_decision_svn_out:
  assumes "snd (path_split name) \<in> set [''.svn'', ''out'']"
    and "relpath cwd name (self_src_dir self) = Inr rel_name"
  shows "add_decision self cwd dirs name nd =
           (if islink nd \<and> \<not> path_exists nd then Inr Skipped
            else if \<not> str_in ''node_modules'' (fst (path_split name)) then Inr Skipped
            else if self_remove_nonessential_files self then
              (if str_in ''ChangeLog'' name then Inr Skipped
               else if \<not> keep_file (snd (path_split name)) rel_name
                       \<and> trim_loop dirs rel_name (isfile nd) then Inr Skipped
               else Inr Added)
            else Inr Added)"
proof -
  define file_name where "file_name = snd (path_split name)"
  have c: "file_name = ''.svn'' \<or> file_name = ''out''"
    using assms(1) by (simp add: file_name_def)
  have f1: "file_name \<noteq> ''__pycache__''"
    using c by auto
  have f2: "\<not> endswith file_name ''.pyc''"
    using c by (auto simp add: endswith_def)
  have f3: "file_name \<noteq> ''.git''"
    using c by auto
  have f4: "file_name \<in> set [''.svn'', ''out'']"
    using c by auto
  show ?thesis
    unfolding add_decision_def Let_def file_name_def [symmetric]
    using assms(2) f1 f2 f3 f4 by simp
qed

section \<open>Facts about the walk\<close>

lemma path_join_nonempty: "a \<noteq> [] \<Longrightarrow> path_join a b \<noteq> []"
  by (cases b) (auto simp add: path_join_def)

lemma for_each_no_exc:
  "(\<And>x. x \<in> set xs \<Longrightarrow> snd (body x) = None) \<Longrightarrow>
   for_each body xs = (concat (map (\<lambda>x. fst (body x)) xs), None)"
proof (induction xs)
  case Nil
  then show ?case by simp
next
  case (Cons x xs)
  have "snd (body x) = None"
    using Cons.prems by simp
  then obtain evs where b: "body x = (evs, None)"
    by (cases "body x") simp
  have "for_each body xs = (concat (map (\<lambda>x. fst (body x)) xs), None)"
    using Cons by simp
  with b show ?case by simp
qed

lemma add_decision_no_exc:
  "name \<noteq> [] \<Longrightarrow> add_decision self cwd dirs name nd \<noteq> Inl e"
  using relpath_nonempty [of name cwd "self_src_dir self"]
  by (auto simp add: add_decision_def Let_def split: if_splits)


lemma add_no_exc:
  "name \<noteq> [] \<Longrightarrow> snd (add self cwd dirs name arcname nd) = None"
proof (induction self cwd dirs name arcname nd rule: add.induct)
  case (1 self cwd dirs name arcname nd)
  show ?case
  proof (cases "add_decision self cwd dirs name nd")
    case (Inl e)
    then show ?thesis using add_decision_no_exc [OF "1.prems"] by simp
  next
    case (Inr d)
    show ?thesis
    proof (cases d)
      case Skipped
      then show ?thesis using Inr by (simp add: add_Skipped)
    next
      case Added
      show ?thesis
      proof (cases nd)
        case (Reg st c)
        then show ?thesis using Inr Added by (simp add: add_Added_Reg)
      next
        case (Lnk st l t)
        then show ?thesis using Inr Added by (simp add: add_Added_Lnk)
      next
        case (Dir st es)
        have "\<And>x. x \<in> set (sort_key fst es) \<Longrightarrow>
                snd ((\<lambda>(f, c). add self cwd dirs (path_join name f) (path_join arcname f) c) x) = None"
        proof -
          fix x assume x: "x \<in> set (sort_key fst es)"
          obtain f c where fc: "x = (f, c)" by (cases x)
          have "snd (add self cwd dirs (path_join name f) (path_join arcname f) c) = None"
            using "1.IH" [OF Inr Added refl Dir x [unfolded fc] refl] path_join_nonempty [OF "1.prems"]
            by simp
          then show "snd ((\<lambda>(f, c). add self cwd dirs (path_join name f) (path_join arcname f) c) x) = None"
            using fc by simp
        qed
        from for_each_no_exc [of "sort_key fst es" "\<lambda>(f, c). add self cwd dirs (path_join name f) (path_join arcname f) c", OF this]
        show ?thesis using Inr Added Dir by (simp add: add_Added_Dir)
      qed
    qed
  qed
qed


lemma for_each_events:
  "ev \<in> set (fst (for_each body xs)) \<Longrightarrow> \<exists>x \<in> set xs. ev \<in> set (fst (body x))"
proof (induction xs)
  case Nil
  then show ?case by simp
next
  case (Cons x xs)
  obtain evs r where b: "body x = (evs, r)"
    by (cases "body x")
  show ?case
  proof (cases r)
    case (Some e)
    then show ?thesis using Cons.prems b by simp
  next
    case None
    obtain evs' r' where f: "for_each body xs = (evs', r')"
      by (cases "for_each body xs")
    from Cons.prems b None f have "ev \<in> set evs \<or> ev \<in> set evs'"
      by simp
    then show ?thesis
      using b f Cons.IH by auto
  qed
qed

lemma subnodes_self: "nd \<in> set (subnodes nd)"
  by (cases nd) simp_all

lemma subnodes_trans:
  "b \<in> set (subnodes a) \<Longrightarrow> c \<in> set (subnodes b) \<Longrightarrow> c \<in> set (subnodes a)"
proof (induction a arbitrary: b c)
  case (Reg st x)
  then show ?case by simp
next
  case (Dir st es)
  then show ?case
    by (fastforce)
next
  case (Lnk st l t)
  then show ?case
    by (cases t) auto
qed

lemma resolve_subnode: "resolve nd = Some r \<Longrightarrow> r \<in> set (subnodes nd)"
proof (induction nd rule: resolve.induct)
  case (1 st l)
  then show ?case by simp
next
  case (2 st l t)
  then show ?case by simp
next
  case (3 st c)
  then show ?case by auto
next
  case (4 st es)
  then show ?case by auto
qed

lemma lookup_subnode: "lookup nd cs = Some r \<Longrightarrow> r \<in> set (subnodes nd)"
proof (induction cs arbitrary: nd)
  case Nil
  then show ?case by (simp add: subnodes_self)
next
  case (Cons c cs)
  from Cons.prems obtain st es ch where
    r: "resolve nd = Some (Dir st es)" and m: "map_of es c = Some ch" and l: "lookup ch cs = Some r"
    by (auto split: option.splits node.splits)
  have "(c, ch) \<in> set es"
    using m by (rule map_of_SomeD)
  then have "ch \<in> set (subnodes (Dir st es))"
    using subnodes_self [of ch] by force
  moreover have "r \<in> set (subnodes ch)"
    using Cons.IH [OF l] .
  ultimately have "r \<in> set (subnodes (Dir st es))"
    by (rule subnodes_trans)
  with resolve_subnode [OF r] show ?case
    by (rule subnodes_trans)
qed

lemma add_members:
  "Member ti \<in> set (fst (add self cwd dirs name arcname nd)) \<Longrightarrow>
   \<exists>a nd'. nd' \<in> set (subnodes nd) \<and> ti = tar_filter self (gettarinfo a nd')"
proof (induction self cwd dirs name arcname nd arbitrary: ti rule: add.induct)
  case (1 self cwd dirs name arcname nd)
  show ?case
  proof (cases "add_decision self cwd dirs name nd")
    case (Inl e)
    then show ?thesis using "1.prems" by (simp add: add_error)
  next
    case (Inr d)
    show ?thesis
    proof (cases d)
      case Skipped
      then show ?thesis using Inr "1.prems" by (simp add: add_Skipped report_skipped_def)
    next
      case Added
      show ?thesis
      proof (cases nd)
        case (Reg st c)
        then have "ti = tar_filter self (gettarinfo arcname nd)"
          using Inr Added "1.prems" by (simp add: add_Added_Reg report_added_def split: if_splits)
        then show ?thesis using subnodes_self by blast
      next
        case (Lnk st l t)
        then have "ti = tar_filter self (gettarinfo arcname nd)"
          using Inr Added "1.prems" by (simp add: add_Added_Lnk report_added_def split: if_splits)
        then show ?thesis using subnodes_self by blast
      next
        case (Dir st es)
        let ?body = "\<lambda>(f, c). add self cwd dirs (path_join name f) (path_join arcname f) c"
        from "1.prems" Inr Added Dir
        have "ti = tar_filter self (gettarinfo arcname nd)
              \<or> Member ti \<in> set (fst (for_each ?body (sort_key fst es)))"
          by (simp add: add_Added_Dir report_added_def split: if_splits)
        then show ?thesis
        proof
          assume "ti = tar_filter self (gettarinfo arcname nd)"
          then show ?thesis using subnodes_self by blast
        next
          assume "Member ti \<in> set (fst (for_each ?body (sort_key fst es)))"
          from for_each_events [OF this] obtain f c where
            x: "(f, c) \<in> set (sort_key fst es)"
            and m: "Member ti \<in> set (fst (add self cwd dirs (path_join name f) (path_join arcname f) c))"
            by auto
          from "1.IH" [OF Inr Added refl Dir x refl m] obtain a nd' where
            s: "nd' \<in> set (subnodes c)" and t: "ti = tar_filter self (gettarinfo a nd')"
            by blast
          have "(f, c) \<in> set es"
            using x by simp
          then have "nd' \<in> set (subnodes nd)"
            using s Dir by force
          with t show ?thesis by blast
        qed
      qed
    qed
  qed
qed

section \<open>Facts about \<open>main\<close>\<close>

lemma members_iff: "ti \<in> set (members evs) \<longleftrightarrow> Member ti \<in> set evs"
  by (induction evs) (auto simp add: members_def split: event.splits)

lemma members_append: "members (xs @ ys) = members xs @ members ys"
  by (simp add: members_def)

lemma members_concat: "members (concat xss) = concat (map members xss)"
  by (induction xss) (simp_all add: members_def)

lemma prints_append: "prints (xs @ ys) = prints xs @ prints ys"
  by (simp add: prints_def)

lemma lstat_src_nonempty: "lstat_src w src_dir = Some root \<Longrightarrow> src_dir \<noteq> []"
  by (auto simp add: lstat_src_def split: if_splits)

lemma test_data_step_no_exc:
  "src_dir \<noteq> [] \<Longrightarrow> snd (test_data_step w archive src_dir base directory) = None"
  by (auto simp add: test_data_step_def Let_def add_no_exc path_join_nonempty split: option.splits)

lemma walk_no_exc:
  "src_dir \<noteq> [] \<Longrightarrow> snd (walk w options args src_dir root timestamp) = None"
  by (simp add: walk_def add_no_exc for_each_no_exc test_data_step_no_exc)

lemma main_valid:
  assumes "length args = 1"
    and "opt_version options = Some v" and "v \<noteq> []"
    and "opt_src_dir options = Some src_dir"
    and "lstat_src w src_dir = Some root"
    and "path_exists root"
    and "read_timestamp w src_dir = Inr timestamp"
  shows "main w options args =
           \<lparr>returned = (if xz_status w \<noteq> 0 then Inr 1 else Inr 0),
            stdout = prints (fst (walk w options args src_dir root timestamp))
                       @ (if xz_status w \<noteq> 0 then [''xz -9 failed!''] else []),
            tarball = Some (args ! 0 @ ''.tar.xz'',
                            members (fst (walk w options args src_dir root timestamp)))\<rparr>"
proof -
  have "snd (walk w options args src_dir root timestamp) = None"
    using lstat_src_nonempty [OF assms(5)] by (rule walk_no_exc)
  then obtain evs where e: "walk w options args src_dir root timestamp = (evs, None)"
    by (cases "walk w options args src_dir root timestamp") simp
  show ?thesis
    using assms e by (simp add: main_def)
qed

lemma main_timestamp_error:
  assumes "length args = 1"
    and "opt_version options = Some v" and "v \<noteq> []"
    and "opt_src_dir options = Some src_dir"
    and "lstat_src w src_dir = Some root"
    and "path_exists root"
    and "read_timestamp w src_dir = Inl e"
  shows "main w options args =
           \<lparr>returned = Inl e, stdout = [], tarball = Some (args ! 0 @ ''.tar.xz'', [])\<rparr>"
  using assms by (simp add: main_def)

lemma main_tarball_cases:
  assumes "tarball (main w options args) = Some (fn, ms)"
  shows "\<exists>src_dir root. opt_src_dir options = Some src_dir \<and> lstat_src w src_dir = Some root
           \<and> path_exists root
           \<and> ((\<exists>e. read_timestamp w src_dir = Inl e \<and> ms = [])
                \<or> (\<exists>timestamp. read_timestamp w src_dir = Inr timestamp
                     \<and> ms = members (fst (walk w options args src_dir root timestamp))))"
proof -
  have a: "length args = 1"
    using assms by (auto simp add: main_def split: if_splits)
  obtain v where v: "opt_version options = Some v" "v \<noteq> []"
    using assms a by (cases "opt_version options") (auto simp add: main_def split: if_splits)
  obtain src_dir where s: "opt_src_dir options = Some src_dir"
    using assms a v by (cases "opt_src_dir options") (auto simp add: main_def)
  obtain root where r: "lstat_src w src_dir = Some root"
    using assms a v s by (cases "lstat_src w src_dir") (auto simp add: main_def)
  have p: "path_exists root"
    using assms a v s r by (cases "path_exists root") (auto simp add: main_def)
  show ?thesis
  proof (cases "read_timestamp w src_dir")
    case (Inl e)
    from main_timestamp_error [OF a v s r p Inl] assms have "ms = []"
      by simp
    with s r p Inl show ?thesis by blast
  next
    case (Inr timestamp)
    from main_valid [OF a v s r p Inr] assms
    have "ms = members (fst (walk w options args src_dir root timestamp))"
      by simp
    with s r p Inr show ?thesis by blast
  qed
qed

lemma lstat_below_subnode:
  "lstat_src w src_dir = Some root \<Longrightarrow> lstat_below w src_dir rel = Some nd \<Longrightarrow>
   nd \<in> set (subnodes root)"
  by (simp add: lstat_below_def lookup_subnode)

lemma walk_members:
  assumes "lstat_src w src_dir = Some root"
    and "Member ti \<in> set (fst (walk w options args src_dir root timestamp))"
  shows "\<exists>a nd. nd \<in> set (subnodes root)
           \<and> ti = tar_filter (configured options src_dir timestamp) (gettarinfo a nd)"
proof (cases "opt_test_data options")
  case False
  then show ?thesis
    using assms(2) add_members by (simp add: walk_def)
next
  case True
  let ?archive = "configured options src_dir timestamp"
  from True assms(2) for_each_events obtain directory where
    m: "Member ti \<in> set (fst (test_data_step w ?archive src_dir (output_basename options args) directory))"
    unfolding walk_def by fastforce
  then obtain nd where l: "lstat_below w src_dir directory = Some nd"
    and a: "Member ti \<in> set (fst (add ?archive (getcwd w) (set_order w) (path_join src_dir directory)
                 (path_join (output_basename options args) directory) nd))"
    by (auto simp add: test_data_step_def Let_def split: option.splits if_splits)
  from add_members [OF a] obtain a' nd' where
    s: "nd' \<in> set (subnodes nd)" and t: "ti = tar_filter ?archive (gettarinfo a' nd')"
    by blast
  have "nd' \<in> set (subnodes root)"
    using lstat_below_subnode [OF assms(1) l] s by (rule subnodes_trans)
  with t show ?thesis by blast
qed

lemma bit_S_IWUSR: "bit S_IWUSR n \<longleftrightarrow> n = 7"
proof -
  have e: "S_IWUSR = (2::nat) ^ 7"
    by (simp add: S_IWUSR_def)
  show ?thesis
    unfolding e bit_exp_iff by simp
qed

lemma tar_filter_fields:
  "mtime (tar_filter self ti) = self_mtime self"
  "uid (tar_filter self ti) = 0"
  "gid (tar_filter self ti) = 0"
  "uname (tar_filter self ti) = ''0''"
  "gname (tar_filter self ti) = ''0''"
  "mode (tar_filter self ti) = mode ti OR S_IWUSR"
  "ti_name (tar_filter self ti) = ti_name ti"
  "ti_type (tar_filter self ti) = ti_type ti"
  "linkname (tar_filter self ti) = linkname ti"
  "data (tar_filter self ti) = data ti"
  by (simp_all add: tar_filter_def)

lemma src_dir_exists_iff:
  "src_dir_exists w src_dir \<longleftrightarrow> (\<exists>root. lstat_src w src_dir = Some root \<and> path_exists root)"
  by (simp add: src_dir_exists_def split: option.splits)

lemma main_usage_error:
  "length args \<noteq> 1 \<or> opt_version options = None \<or> opt_version options = Some [] \<Longrightarrow>
   returned (main w options args) = Inr 1 \<and> tarball (main w options args) = None"
  by (auto simp add: main_def)

lemma main_no_src_dir:
  assumes "length args = 1" and "opt_version options = Some v" and "v \<noteq> []"
    and "opt_src_dir options = Some src_dir" and "\<not> src_dir_exists w src_dir"
  shows "main w options args =
           \<lparr>returned = Inr 1, stdout = [''Cannot find the src directory '' @ src_dir],
            tarball = None\<rparr>"
  using assms by (simp add: main_def src_dir_exists_def split: option.splits)

lemma prints_iff: "l \<in> set (prints evs) \<longleftrightarrow> Print l \<in> set evs"
  by (induction evs) (auto simp add: prints_def split: event.splits)

lemma concat_map_filter:
  "(\<And>x. x \<in> set xs \<Longrightarrow> \<not> P x \<Longrightarrow> f x = []) \<Longrightarrow>
   concat (map f xs) = concat (map f (filter P xs))"
  by (induction xs) auto

lemma test_data_step_absent:
  "\<not> test_dir_present w src_dir directory \<Longrightarrow>
   test_data_step w archive src_dir base directory
     = ([Print (skip_message (path_join src_dir directory))], None)"
  by (simp add: test_data_step_def test_dir_present_def Let_def split: option.splits)

lemma test_data_step_present:
  "test_dir_present w src_dir directory \<Longrightarrow>
   test_data_step w archive src_dir base directory
     = add archive (getcwd w) (set_order w) (path_join src_dir directory)
         (path_join base directory) (the (lstat_below w src_dir directory))"
  by (simp add: test_data_step_def test_dir_present_def Let_def split: option.splits)

lemma main_exit_codes:
  "(length args \<noteq> 1 \<longrightarrow> returned (main w options args) = Inr 1)
   \<and> (opt_version options = None \<or> opt_version options = Some []
        \<longrightarrow> returned (main w options args) = Inr 1)
   \<and> (length args = 1 \<and> opt_version options = Some v \<and> v \<noteq> []
        \<and> opt_src_dir options = Some src_dir \<and> \<not> src_dir_exists w src_dir
        \<longrightarrow> returned (main w options args) = Inr 1)
   \<and> (length args = 1 \<and> opt_version options = Some v \<and> v \<noteq> []
        \<and> opt_src_dir options = Some src_dir \<and> src_dir_exists w src_dir
        \<and> read_timestamp w src_dir = Inr timestamp \<and> xz_status w \<noteq> 0
        \<longrightarrow> returned (main w options args) = Inr 1
            \<and> last (stdout (main w options args)) = ''xz -9 failed!''
            \<and> tarball (main w options args) \<noteq> None)
   \<and> (length args = 1 \<and> opt_version options = Some v \<and> v \<noteq> []
        \<and> opt_src_dir options = Some src_dir \<and> src_dir_exists w src_dir
        \<and> read_timestamp w src_dir = Inr timestamp \<and> xz_status w = 0
        \<longrightarrow> returned (main w options args) = Inr 0)
   \<and> (length args = 1 \<and> opt_version options = Some v \<and> v \<noteq> []
        \<and> opt_src_dir options = None
        \<longrightarrow> returned (main w options args) = Inl TypeError
            \<and> exit_status (main w options args) = 1)"
proof -
  have p1: "length args \<noteq> 1 \<longrightarrow> returned (main w options args) = Inr 1"
    using main_usage_error [of args options w] by blast
  have p2: "opt_version options = None \<or> opt_version options = Some []
        \<longrightarrow> returned (main w options args) = Inr 1"
    using main_usage_error [of args options w] by blast
  have p3: "length args = 1 \<and> opt_version options = Some v \<and> v \<noteq> []
        \<and> opt_src_dir options = Some src_dir \<and> \<not> src_dir_exists w src_dir
        \<longrightarrow> returned (main w options args) = Inr 1"
    using main_no_src_dir [of args options v src_dir w] by simp
  have p45: "length args = 1 \<and> opt_version options = Some v \<and> v \<noteq> []
        \<and> opt_src_dir options = Some src_dir \<and> src_dir_exists w src_dir
        \<and> read_timestamp w src_dir = Inr timestamp
        \<longrightarrow> (xz_status w \<noteq> 0 \<longrightarrow> returned (main w options args) = Inr 1
            \<and> last (stdout (main w options args)) = ''xz -9 failed!''
            \<and> tarball (main w options args) \<noteq> None)
          \<and> (xz_status w = 0 \<longrightarrow> returned (main w options args) = Inr 0)"
  proof
    assume a: "length args = 1 \<and> opt_version options = Some v \<and> v \<noteq> []
        \<and> opt_src_dir options = Some src_dir \<and> src_dir_exists w src_dir
        \<and> read_timestamp w src_dir = Inr timestamp"
    then obtain root where r: "lstat_src w src_dir = Some root" "path_exists root"
      by (auto simp add: src_dir_exists_iff)
    from a r main_valid [of args options v src_dir w root timestamp]
    show "(xz_status w \<noteq> 0 \<longrightarrow> returned (main w options args) = Inr 1
            \<and> last (stdout (main w options args)) = ''xz -9 failed!''
            \<and> tarball (main w options args) \<noteq> None)
          \<and> (xz_status w = 0 \<longrightarrow> returned (main w options args) = Inr 0)"
      by simp
  qed
  have p6: "length args = 1 \<and> opt_version options = Some v \<and> v \<noteq> []
        \<and> opt_src_dir options = None
        \<longrightarrow> returned (main w options args) = Inl TypeError
            \<and> exit_status (main w options args) = 1"
    by (simp add: main_def exit_status_def)
  from p1 p2 p3 p45 p6 show ?thesis
    by blast
qed

section \<open>Facts about what a run observes\<close>

lemma islink_canon: "islink (canon nd) = islink nd"
  by (cases nd) simp_all

lemma resolve_canon: "resolve (canon nd) = map_option canon (resolve nd)"
  by (induction nd rule: resolve.induct) simp_all

lemma path_exists_canon: "path_exists (canon nd) = path_exists nd"
  by (simp add: path_exists_def resolve_canon)

lemma isfile_canon: "isfile (canon nd) = isfile nd"
proof (cases "resolve nd")
  case None
  then show ?thesis by (simp add: isfile_def resolve_canon)
next
  case (Some r)
  then show ?thesis by (cases r) (simp_all add: isfile_def resolve_canon)
qed

lemma isdir_canon: "isdir (canon nd) = isdir nd"
proof (cases "resolve nd")
  case None
  then show ?thesis by (simp add: isdir_def resolve_canon)
next
  case (Some r)
  then show ?thesis by (cases r) (simp_all add: isdir_def resolve_canon)
qed

lemma add_decision_canon:
  "add_decision self cwd dirs name (canon nd) = add_decision self cwd dirs name nd"
  by (simp add: add_decision_def Let_def islink_canon path_exists_canon isfile_canon
        split: sum.splits)

lemma add_decision_order:
  "set dirs = set dirs' \<Longrightarrow>
   add_decision self cwd dirs name nd = add_decision self cwd dirs' name nd"
  by (simp add: add_decision_def Let_def trim_loop_iff split: sum.splits)

lemma tar_filter_canon:
  "tar_filter self (gettarinfo a (canon nd)) = tar_filter self (gettarinfo a nd)"
  by (cases nd) (simp_all add: tar_filter_def gettarinfo_def strip_stat_def)

lemma insort_key_map_snd:
  "insort_key fst (f, g c) (map (\<lambda>(f, c). (f, g c)) xs)
     = map (\<lambda>(f, c). (f, g c)) (insort_key fst (f, c) xs)"
  by (induction xs) auto

lemma sort_key_map_snd:
  "sort_key fst (map (\<lambda>(f, c). (f, g c)) es) = map (\<lambda>(f, c). (f, g c)) (sort_key fst es)"
proof (induction es)
  case Nil
  then show ?case by simp
next
  case (Cons e es)
  obtain f c where e: "e = (f, c)" by (cases e)
  show ?case
    using Cons.IH by (simp add: e insort_key_map_snd)
qed

lemma sort_key_idem: "sort_key f (sort_key f xs) = sort_key f xs"
  by (simp add: sort_key_id_if_sorted)

lemma for_each_map: "for_each body (map g xs) = for_each (\<lambda>x. body (g x)) xs"
  by (induction xs) (simp_all split: prod.splits option.splits)

lemma add_canon:
  "add self cwd dirs name arcname (canon nd) = add self cwd dirs name arcname nd"
proof (induction nd arbitrary: name arcname)
  case (Reg st c)
  show ?case
  proof (cases "add_decision self cwd dirs name (Reg st c)")
    case (Inl e)
    then show ?thesis
      using add_decision_canon [of self cwd dirs name "Reg st c"] by (simp add: add_error)
  next
    case (Inr d)
    then have k: "add_decision self cwd dirs name (Reg (strip_stat st) c) = Inr d"
      using add_decision_canon [of self cwd dirs name "Reg st c"] by simp
    show ?thesis
    proof (cases d)
      case Skipped
      then show ?thesis using Inr k by (simp add: add_Skipped)
    next
      case Added
      then show ?thesis
        using Inr k tar_filter_canon [of self arcname "Reg st c"] by (simp add: add_Added_Reg)
    qed
  qed
next
  case (Lnk st l t)
  let ?t' = "case t of None \<Rightarrow> None | Some t' \<Rightarrow> Some (canon t')"
  show ?case
  proof (cases "add_decision self cwd dirs name (Lnk st l t)")
    case (Inl e)
    then show ?thesis
      using add_decision_canon [of self cwd dirs name "Lnk st l t"] by (simp add: add_error)
  next
    case (Inr d)
    then have k: "add_decision self cwd dirs name (Lnk (strip_stat st) l ?t') = Inr d"
      using add_decision_canon [of self cwd dirs name "Lnk st l t"] by simp
    show ?thesis
    proof (cases d)
      case Skipped
      then show ?thesis using Inr k by (simp add: add_Skipped)
    next
      case Added
      then show ?thesis
        using Inr k tar_filter_canon [of self arcname "Lnk st l t"] by (simp add: add_Added_Lnk)
    qed
  qed
next
  case (Dir st es)
  let ?h = "\<lambda>(f, c). (f, canon c)"
  let ?es' = "sort_key fst (map ?h es)"
  let ?body = "\<lambda>n a. (\<lambda>(f, c). add self cwd dirs (path_join n f) (path_join a f) c)"
  have c: "canon (Dir st es) = Dir (strip_stat st) ?es'"
    by simp
  show ?case
  proof (cases "add_decision self cwd dirs name (Dir st es)")
    case (Inl e)
    then show ?thesis
      using add_decision_canon [of self cwd dirs name "Dir st es"] by (simp add: add_error)
  next
    case (Inr d)
    then have k: "add_decision self cwd dirs name (Dir (strip_stat st) ?es') = Inr d"
      using add_decision_canon [of self cwd dirs name "Dir st es"] by simp
    show ?thesis
    proof (cases d)
      case Skipped
      then show ?thesis using Inr k by (simp add: add_Skipped)
    next
      case Added
      have "sort_key fst ?es' = map ?h (sort_key fst es)"
        by (simp add: sort_key_idem sort_key_map_snd)
      then have "for_each (?body name arcname) (sort_key fst ?es')
                   = for_each (\<lambda>x. ?body name arcname (?h x)) (sort_key fst es)"
        by (simp add: for_each_map)
      also have "\<dots> = for_each (?body name arcname) (sort_key fst es)"
      proof (rule for_each_cong [OF refl])
        fix x assume "x \<in> set (sort_key fst es)"
        then have x: "x \<in> set es" by simp
        obtain f c where fc: "x = (f, c)" by (cases x)
        have "add self cwd dirs (path_join name f) (path_join arcname f) (canon c)
                = add self cwd dirs (path_join name f) (path_join arcname f) c"
          using Dir.IH [of x c] x fc by simp
        then show "?body name arcname (?h x) = ?body name arcname x"
          by (simp add: fc)
      qed
      finally have fe: "for_each (?body name arcname) (sort_key fst ?es')
                          = for_each (?body name arcname) (sort_key fst es)" .
      have tf: "tar_filter self (gettarinfo arcname (Dir (strip_stat st) ?es'))
                  = tar_filter self (gettarinfo arcname (Dir st es))"
        using tar_filter_canon [of self arcname "Dir st es"] by simp
      show ?thesis
        unfolding c
        using Inr k Added fe tf
        by (simp only: add_Added_Dir)
    qed
  qed
qed


lemma add_order:
  "set dirs = set dirs' \<Longrightarrow>
   add self cwd dirs name arcname nd = add self cwd dirs' name arcname nd"
proof (induction nd arbitrary: name arcname)
  case (Reg st c)
  note o = add_decision_order [OF Reg.prems, of self cwd name "Reg st c"]
  show ?case
  proof (cases "add_decision self cwd dirs name (Reg st c)")
    case (Inl e)
    then show ?thesis using o by (simp add: add_error)
  next
    case (Inr d)
    then show ?thesis using o by (cases d) (simp_all add: add_Skipped add_Added_Reg)
  qed
next
  case (Lnk st l t)
  note o = add_decision_order [OF Lnk.prems, of self cwd name "Lnk st l t"]
  show ?case
  proof (cases "add_decision self cwd dirs name (Lnk st l t)")
    case (Inl e)
    then show ?thesis using o by (simp add: add_error)
  next
    case (Inr d)
    then show ?thesis using o by (cases d) (simp_all add: add_Skipped add_Added_Lnk)
  qed
next
  case (Dir st es)
  note o = add_decision_order [OF Dir.prems, of self cwd name "Dir st es"]
  show ?case
  proof (cases "add_decision self cwd dirs name (Dir st es)")
    case (Inl e)
    then show ?thesis using o by (simp add: add_error)
  next
    case (Inr d)
    show ?thesis
    proof (cases d)
      case Skipped
      then show ?thesis using Inr o by (simp add: add_Skipped)
    next
      case Added
      have fe: "for_each (\<lambda>(f, c). add self cwd dirs (path_join name f) (path_join arcname f) c)
                  (sort_key fst es)
                = for_each (\<lambda>(f, c). add self cwd dirs' (path_join name f) (path_join arcname f) c)
                    (sort_key fst es)"
      proof (rule for_each_cong [OF refl])
        fix x assume "x \<in> set (sort_key fst es)"
        then have x: "x \<in> set es" by simp
        obtain f c where fc: "x = (f, c)" by (cases x)
        have "add self cwd dirs (path_join name f) (path_join arcname f) c
                = add self cwd dirs' (path_join name f) (path_join arcname f) c"
          using Dir.IH [of x c] x fc Dir.prems by simp
        then show "(\<lambda>(f, c). add self cwd dirs (path_join name f) (path_join arcname f) c) x
                 = (\<lambda>(f, c). add self cwd dirs' (path_join name f) (path_join arcname f) c) x"
          by (simp add: fc)
      qed
      have k: "add_decision self cwd dirs' name (Dir st es) = Inr Added"
        using Inr Added o by simp
      show ?thesis
        using Inr Added k fe by (simp only: add_Added_Dir)
    qed
  qed
qed

lemma map_of_filter:
  "map_of xs k = (case filter (\<lambda>x. fst x = k) xs of [] \<Rightarrow> None | x # _ \<Rightarrow> Some (snd x))"
  by (induction xs) auto

lemma map_of_sort_key: "map_of (sort_key fst es) k = map_of es k"
  by (simp add: map_of_filter sort_key_stable)

lemma map_of_canon:
  "map_of (sort_key fst (map (\<lambda>(f, c). (f, canon c)) es)) k = map_option canon (map_of es k)"
  by (simp add: map_of_sort_key map_of_map)

lemma lookup_canon: "lookup (canon nd) cs = map_option canon (lookup nd cs)"
proof (induction cs arbitrary: nd)
  case Nil
  then show ?case by simp
next
  case (Cons c cs)
  show ?case
  proof (cases "resolve nd")
    case None
    then show ?thesis by (simp add: resolve_canon)
  next
    case (Some r)
    show ?thesis
    proof (cases r)
      case (Reg st x)
      then show ?thesis using Some by (simp add: resolve_canon)
    next
      case (Lnk st l t)
      then show ?thesis using Some by (simp add: resolve_canon)
    next
      case (Dir st es)
      show ?thesis
      proof (cases "map_of es c")
        case None
        then show ?thesis using Some Dir by (simp add: resolve_canon map_of_canon)
      next
        case (Some ch)
        then show ?thesis
          using \<open>resolve nd = Some r\<close> Dir Cons.IH [of ch]
          by (simp add: resolve_canon map_of_canon)
      qed
    qed
  qed
qed

lemma observed_fields:
  "getcwd (observed w ds) = getcwd w"
  "set_order (observed w ds) = ds"
  by (simp_all add: observed_def)

lemma lstat_src_observed:
  "lstat_src (observed w ds) src_dir = map_option canon (lstat_src w src_dir)"
  by (simp add: lstat_src_def observed_def)

lemma lstat_below_observed:
  "lstat_below (observed w ds) src_dir rel = map_option canon (lstat_below w src_dir rel)"
  by (cases "lstat_src w src_dir") (simp_all add: lstat_below_def lstat_src_observed lookup_canon)

lemma read_timestamp_observed:
  "read_timestamp (observed w ds) src_dir = read_timestamp w src_dir"
proof (cases "lstat_below w src_dir ''build/util/LASTCHANGE.committime''")
  case None
  then show ?thesis by (simp add: read_timestamp_def lstat_below_observed)
next
  case (Some nd)
  show ?thesis
  proof (cases "resolve nd")
    case None
    then show ?thesis using Some by (simp add: read_timestamp_def lstat_below_observed resolve_canon)
  next
    case (Some r)
    then show ?thesis
      using \<open>lstat_below w src_dir ''build/util/LASTCHANGE.committime'' = Some nd\<close>
      by (cases r) (simp_all add: read_timestamp_def lstat_below_observed resolve_canon)
  qed
qed

lemma test_data_step_observed:
  assumes "set ds = set (set_order w)"
  shows "test_data_step (observed w ds) archive src_dir base directory
           = test_data_step w archive src_dir base directory"
proof (cases "lstat_below w src_dir directory")
  case None
  then show ?thesis by (simp add: test_data_step_def lstat_below_observed)
next
  case (Some nd)
  have "add archive (getcwd w) ds (path_join src_dir directory) (path_join base directory) (canon nd)
          = add archive (getcwd w) (set_order w) (path_join src_dir directory)
              (path_join base directory) nd"
    using add_order [OF assms] by (simp add: add_canon)
  then show ?thesis
    using Some
    by (simp add: test_data_step_def Let_def lstat_below_observed isdir_canon observed_fields)
qed

lemma walk_observed:
  assumes "set ds = set (set_order w)"
  shows "walk (observed w ds) options args src_dir (canon root) timestamp
           = walk w options args src_dir root timestamp"
proof (cases "opt_test_data options")
  case True
  then show ?thesis
    using test_data_step_observed [OF assms] by (simp add: walk_def cong: for_each_cong)
next
  case False
  have "add (configured options src_dir timestamp) (getcwd w) ds src_dir
          (output_basename options args) (canon root)
        = add (configured options src_dir timestamp) (getcwd w) (set_order w) src_dir
          (output_basename options args) root"
    using add_order [OF assms] by (simp add: add_canon)
  then show ?thesis
    using False by (simp add: walk_def observed_fields)
qed

lemma main_cases:
  obtains (usage) "length args \<noteq> 1 \<or> opt_version options = None \<or> opt_version options = Some []"
  | (no_flag) v where "length args = 1" "opt_version options = Some v" "v \<noteq> []"
      "opt_src_dir options = None"
  | (no_dir) v src_dir where "length args = 1" "opt_version options = Some v" "v \<noteq> []"
      "opt_src_dir options = Some src_dir" "\<not> src_dir_exists w src_dir"
  | (no_time) v src_dir root e where "length args = 1" "opt_version options = Some v" "v \<noteq> []"
      "opt_src_dir options = Some src_dir" "lstat_src w src_dir = Some root" "path_exists root"
      "read_timestamp w src_dir = Inl e"
  | (valid) v src_dir root timestamp where "length args = 1" "opt_version options = Some v"
      "v \<noteq> []" "opt_src_dir options = Some src_dir" "lstat_src w src_dir = Some root"
      "path_exists root" "read_timestamp w src_dir = Inr timestamp"
proof (cases "length args \<noteq> 1 \<or> opt_version options = None \<or> opt_version options = Some []")
  case True
  then show ?thesis by (rule usage)
next
  case False
  then obtain v where v: "length args = 1" "opt_version options = Some v" "v \<noteq> []"
    by (cases "opt_version options") auto
  show ?thesis
  proof (cases "opt_src_dir options")
    case None
    with v show ?thesis by (rule no_flag)
  next
    case (Some src_dir)
    show ?thesis
    proof (cases "src_dir_exists w src_dir")
      case False
      with v Some show ?thesis by (rule no_dir)
    next
      case True
      then obtain root where r: "lstat_src w src_dir = Some root" "path_exists root"
        by (auto simp add: src_dir_exists_iff)
      show ?thesis
      proof (cases "read_timestamp w src_dir")
        case (Inl e)
        with v Some r show ?thesis by (rule no_time)
      next
        case (Inr timestamp)
        with v Some r show ?thesis by (rule valid)
      qed
    qed
  qed
qed

lemma src_dir_exists_observed:
  "src_dir_exists (observed w ds) src_dir = src_dir_exists w src_dir"
  by (cases "lstat_src w src_dir")
     (simp_all add: src_dir_exists_def lstat_src_observed path_exists_canon)

lemma main_observed:
  assumes "set ds = set (set_order w)"
  shows "tarball (main (observed w ds) options args) = tarball (main w options args)"
proof (cases rule: main_cases [where args = args and options = options and w = w])
  case usage
  then show ?thesis
    using main_usage_error [of args options w] main_usage_error [of args options "observed w ds"]
    by simp
next
  case (no_flag v)
  then show ?thesis by (simp add: main_def)
next
  case (no_dir v src_dir)
  then show ?thesis
    using main_no_src_dir [of args options v src_dir w]
      main_no_src_dir [of args options v src_dir "observed w ds"]
    by (simp add: src_dir_exists_observed)
next
  case (no_time v src_dir root e)
  have "lstat_src (observed w ds) src_dir = Some (canon root)" "path_exists (canon root)"
    "read_timestamp (observed w ds) src_dir = Inl e"
    using no_time by (simp_all add: lstat_src_observed path_exists_canon read_timestamp_observed)
  then show ?thesis
    using no_time main_timestamp_error [of args options v src_dir w root e]
      main_timestamp_error [of args options v src_dir "observed w ds" "canon root" e]
    by simp
next
  case (valid v src_dir root timestamp)
  have "lstat_src (observed w ds) src_dir = Some (canon root)" "path_exists (canon root)"
    "read_timestamp (observed w ds) src_dir = Inr timestamp"
    using valid by (simp_all add: lstat_src_observed path_exists_canon read_timestamp_observed)
  then show ?thesis
    using valid main_valid [of args options v src_dir w root timestamp]
      main_valid [of args options v src_dir "observed w ds" "canon root" timestamp]
      walk_observed [OF assms, of options args src_dir root timestamp]
    by simp
qed

section \<open>Facts about the objects visited and the timestamp\<close>

lemma lt_10_cases:
  "(k::nat) < 10 \<Longrightarrow>
   k = 0 \<or> k = 1 \<or> k = 2 \<or> k = 3 \<or> k = 4 \<or> k = 5 \<or> k = 6 \<or> k = 7 \<or> k = 8 \<or> k = 9"
  by arith

lemma digit_char_facts:
  assumes "k < 10"
  shows "is_digit (digit_char k)" and "digit_val (digit_char k) = int k"
    and "digit_char k \<noteq> CHR ''_''" and "digit_char k \<noteq> CHR ''-''" and "digit_char k \<noteq> CHR ''+''"
    and "\<not> py_isspace (digit_char k)"
  using lt_10_cases [OF assms]
  by (auto simp add: digit_char_def is_digit_def digit_val_def py_isspace_def)

lemma decimal_digits: "decimal n \<noteq> [] \<and> list_all (\<lambda>c. \<exists>k<10. c = digit_char k) (decimal n)"
proof (induction n rule: decimal.induct)
  case (1 n)
  show ?case
  proof (cases "n < 10")
    case True
    then show ?thesis by (subst decimal.simps, subst (2) decimal.simps) auto
  next
    case False
    have "\<exists>k<10. digit_char (n mod 10) = digit_char k"
      by (rule exI [of _ "n mod 10"]) simp
    then show ?thesis
      using False "1.IH" by (subst decimal.simps, subst (2) decimal.simps) simp
  qed
qed

lemma valid_digits_all:
  "s \<noteq> [] \<Longrightarrow> list_all (\<lambda>c. \<exists>k<10. c = digit_char k) s \<Longrightarrow> valid_digits s"
proof (induction s rule: valid_digits.induct)
  case 1
  then show ?case by simp
next
  case (2 c)
  then show ?case by (auto simp add: digit_char_facts)
next
  case (3 c d cs)
  then show ?case by (auto simp add: digit_char_facts)
qed

lemma digits_value_snoc:
  "d \<noteq> CHR ''_'' \<Longrightarrow> digits_value (s @ [d]) = 10 * digits_value s + digit_val d"
  by (simp add: digits_value_def)

lemma digits_value_decimal: "digits_value (decimal n) = int n"
proof (induction n rule: decimal.induct)
  case (1 n)
  show ?case
  proof (cases "n < 10")
    case True
    then show ?thesis
      by (subst decimal.simps) (simp add: digits_value_def digit_char_facts)
  next
    case False
    have m: "n mod 10 < 10" by simp
    have "digits_value (decimal n)
            = 10 * digits_value (decimal (n div 10)) + digit_val (digit_char (n mod 10))"
      using False by (subst decimal.simps) (simp add: digits_value_snoc digit_char_facts(3) [OF m])
    also have "\<dots> = 10 * int (n div 10) + int (n mod 10)"
      using False "1.IH" by (simp add: digit_char_facts(2) [OF m])
    also have "\<dots> = int n"
      by presburger
    finally show ?thesis .
  qed
qed

lemma decimal_head:
  "\<exists>c r. decimal n = c # r \<and> c \<noteq> CHR ''-'' \<and> c \<noteq> CHR ''+''"
proof -
  obtain c r where d: "decimal n = c # r"
    using decimal_digits [of n] by (cases "decimal n") auto
  then have "\<exists>k<10. c = digit_char k"
    using decimal_digits [of n] by simp
  then show ?thesis
    using d by (auto simp add: digit_char_facts)
qed

lemma py_int_decimal: "py_strip c = decimal n \<Longrightarrow> py_int c = Some (int n)"
proof -
  assume s: "py_strip c = decimal n"
  obtain h r where d: "decimal n = h # r" "h \<noteq> CHR ''-''" "h \<noteq> CHR ''+''"
    using decimal_head by blast
  have v: "valid_digits (decimal n)"
    using decimal_digits [of n] valid_digits_all by blast
  have "valid_digits (h # r)" "digits_value (h # r) = int n"
    using v digits_value_decimal [of n] d(1) by simp_all
  then show ?thesis
    using s d by (simp add: py_int_def Let_def)
qed

lemma read_timestamp_Inr:
  assumes "read_timestamp w src_dir = Inr timestamp"
  shows "\<exists>nd st c. lstat_below w src_dir ''build/util/LASTCHANGE.committime'' = Some nd
           \<and> resolve nd = Some (Reg st c) \<and> py_int c = Some timestamp"
  using assms
  by (auto simp add: read_timestamp_def split: option.splits node.splits)

lemma add_entries:
  "Member ti \<in> set (fst (add self cwd dirs name arcname nd)) \<Longrightarrow>
   \<exists>n a e. (n, a, e) \<in> set (entries name arcname nd)
     \<and> add_decision self cwd dirs n e = Inr Added
     \<and> ti = tar_filter self (gettarinfo a e)"
proof (induction self cwd dirs name arcname nd arbitrary: ti rule: add.induct)
  case (1 self cwd dirs name arcname nd)
  have top: "(name, arcname, nd) \<in> set (entries name arcname nd)"
    by (subst entries.simps) simp
  show ?case
  proof (cases "add_decision self cwd dirs name nd")
    case (Inl e)
    then show ?thesis using "1.prems" by (simp add: add_error)
  next
    case (Inr d)
    show ?thesis
    proof (cases d)
      case Skipped
      then show ?thesis using Inr "1.prems" by (simp add: add_Skipped report_skipped_def)
    next
      case Added
      show ?thesis
      proof (cases nd)
        case (Reg st c)
        then have "ti = tar_filter self (gettarinfo arcname nd)"
          using Inr Added "1.prems" by (simp add: add_Added_Reg report_added_def split: if_splits)
        then show ?thesis using top Inr Added by blast
      next
        case (Lnk st l t)
        then have "ti = tar_filter self (gettarinfo arcname nd)"
          using Inr Added "1.prems" by (simp add: add_Added_Lnk report_added_def split: if_splits)
        then show ?thesis using top Inr Added by blast
      next
        case (Dir st es)
        let ?body = "\<lambda>(f, c). add self cwd dirs (path_join name f) (path_join arcname f) c"
        from "1.prems" Inr Added Dir
        have "ti = tar_filter self (gettarinfo arcname nd)
              \<or> Member ti \<in> set (fst (for_each ?body (sort_key fst es)))"
          by (simp add: add_Added_Dir report_added_def split: if_splits)
        then show ?thesis
        proof
          assume "ti = tar_filter self (gettarinfo arcname nd)"
          then show ?thesis using top Inr Added by blast
        next
          assume "Member ti \<in> set (fst (for_each ?body (sort_key fst es)))"
          from for_each_events [OF this] obtain f c where
            x: "(f, c) \<in> set (sort_key fst es)"
            and m: "Member ti \<in> set (fst (add self cwd dirs (path_join name f) (path_join arcname f) c))"
            by auto
          from "1.IH" [OF Inr Added refl Dir x refl m] obtain n a e where
            s: "(n, a, e) \<in> set (entries (path_join name f) (path_join arcname f) c)"
            and k: "add_decision self cwd dirs n e = Inr Added"
            and t: "ti = tar_filter self (gettarinfo a e)"
            by blast
          have "(n, a, e) \<in> set (entries name arcname nd)"
            using s x Dir by (subst entries.simps) force
          with k t show ?thesis by blast
        qed
      qed
    qed
  qed
qed

lemma entries_subnodes:
  "(n, a, e) \<in> set (entries name arcname nd) \<Longrightarrow> e \<in> set (subnodes nd)"
proof (induction name arcname nd arbitrary: n a e rule: entries.induct)
  case (1 name arcname nd)
  show ?case
  proof (cases nd)
    case (Reg st c)
    then show ?thesis using "1.prems" by (subst (asm) entries.simps) simp
  next
    case (Lnk st l t)
    then show ?thesis using "1.prems" by (subst (asm) entries.simps) simp
  next
    case (Dir st es)
    from "1.prems" Dir have
      "(n, a, e) = (name, arcname, nd)
       \<or> (\<exists>(f, c) \<in> set es. (n, a, e) \<in> set (entries (path_join name f) (path_join arcname f) c))"
      by (subst (asm) entries.simps) auto
    then show ?thesis
    proof
      assume "(n, a, e) = (name, arcname, nd)"
      then show ?thesis by (simp add: subnodes_self)
    next
      assume "\<exists>(f, c) \<in> set es. (n, a, e) \<in> set (entries (path_join name f) (path_join arcname f) c)"
      then obtain f c where x: "(f, c) \<in> set es"
        and m: "(n, a, e) \<in> set (entries (path_join name f) (path_join arcname f) c)"
        by auto
      have "(f, c) \<in> set (sort_key fst es)"
        using x by simp
      from "1.IH" [OF Dir this refl m] have "e \<in> set (subnodes c)" .
      then show ?thesis
        using x Dir by force
    qed
  qed
qed

lemma test_data_step_entries:
  assumes "Member ti \<in> set (fst (test_data_step w archive src_dir base directory))"
  shows "test_dir_present w src_dir directory
       \<and> Member ti \<in> set (fst (add archive (getcwd w) (set_order w) (path_join src_dir directory)
                                  (path_join base directory)
                                  (the (lstat_below w src_dir directory))))"
proof (cases "test_dir_present w src_dir directory")
  case True
  then show ?thesis using assms by (simp add: test_data_step_present)
next
  case False
  then show ?thesis using assms by (simp add: test_data_step_absent)
qed

lemma walk_entries:
  assumes "lstat_src w src_dir = Some root"
    and "Member ti \<in> set (fst (walk w options args src_dir root timestamp))"
  shows "\<exists>n a e. (n, a, e) \<in> set (candidates w options (output_basename options args) src_dir root)
           \<and> e \<in> set (subnodes root)
           \<and> add_decision (configured options src_dir timestamp) (getcwd w) (set_order w) n e
               = Inr Added
           \<and> ti = tar_filter (configured options src_dir timestamp) (gettarinfo a e)"
proof (cases "opt_test_data options")
  case False
  from False assms(2) have
    "Member ti \<in> set (fst (add (configured options src_dir timestamp) (getcwd w) (set_order w)
                              src_dir (output_basename options args) root))"
    by (simp add: walk_def)
  from add_entries [OF this] obtain n a e where
    m: "(n, a, e) \<in> set (entries src_dir (output_basename options args) root)"
    and k: "add_decision (configured options src_dir timestamp) (getcwd w) (set_order w) n e
              = Inr Added"
    and t: "ti = tar_filter (configured options src_dir timestamp) (gettarinfo a e)"
    by blast
  have "e \<in> set (subnodes root)"
    using m by (rule entries_subnodes)
  with m k t False show ?thesis
    by (auto simp add: candidates_def)
next
  case True
  let ?archive = "configured options src_dir timestamp"
  let ?base = "output_basename options args"
  from True assms(2) for_each_events obtain directory where
    d: "directory \<in> set TEST_DIRS"
    and m: "Member ti \<in> set (fst (test_data_step w ?archive src_dir ?base directory))"
    unfolding walk_def by fastforce
  from test_data_step_entries [OF m] have p: "test_dir_present w src_dir directory"
    and a: "Member ti \<in> set (fst (add ?archive (getcwd w) (set_order w)
                 (path_join src_dir directory) (path_join ?base directory)
                 (the (lstat_below w src_dir directory))))"
    by simp_all
  from add_entries [OF a] obtain n a' e where
    s: "(n, a', e) \<in> set (entries (path_join src_dir directory) (path_join ?base directory)
                              (the (lstat_below w src_dir directory)))"
    and k: "add_decision ?archive (getcwd w) (set_order w) n e = Inr Added"
    and t: "ti = tar_filter ?archive (gettarinfo a' e)"
    by blast
  obtain nd where l: "lstat_below w src_dir directory = Some nd"
    using p by (auto simp add: test_dir_present_def split: option.splits)
  have "e \<in> set (subnodes nd)"
    using s l entries_subnodes by simp
  then have sub: "e \<in> set (subnodes root)"
    using lstat_below_subnode [OF assms(1) l] subnodes_trans by blast
  have "(n, a', e) \<in> set (test_data_entries w src_dir ?base)"
    using s d p by (auto simp add: test_data_entries_def)
  with sub k t True show ?thesis
    by (auto simp add: candidates_def)
qed

lemma resolve_wf: "wf_names nd \<Longrightarrow> resolve nd = Some r \<Longrightarrow> wf_names r"
  by (induction nd rule: resolve.induct) auto

lemma lookup_wf: "wf_names nd \<Longrightarrow> lookup nd cs = Some r \<Longrightarrow> wf_names r"
proof (induction cs arbitrary: nd)
  case Nil
  then show ?case by simp
next
  case (Cons c cs)
  from Cons.prems(2) obtain st es ch where
    r: "resolve nd = Some (Dir st es)" and m: "map_of es c = Some ch" and l: "lookup ch cs = Some r"
    by (auto split: option.splits node.splits)
  have "wf_names (Dir st es)"
    using Cons.prems(1) r by (rule resolve_wf)
  moreover have "(c, ch) \<in> set es"
    using m by (rule map_of_SomeD)
  ultimately have "wf_names ch"
    by auto
  then show ?case
    using l by (rule Cons.IH)
qed

lemma path_join_append: "\<not> startswith f ''/'' \<Longrightarrow> \<exists>y. path_join a f = a @ y"
  by (simp add: path_join_def)

lemma no_slash_start: "CHR ''/'' \<notin> set f \<Longrightarrow> \<not> startswith f ''/''"
  by (cases f) auto

lemma entries_arcname:
  "wf_names nd \<Longrightarrow> (n, a, e) \<in> set (entries name arcname nd) \<Longrightarrow> \<exists>x. a = arcname @ x"
proof (induction name arcname nd arbitrary: n a e rule: entries.induct)
  case (1 name arcname nd)
  show ?case
  proof (cases nd)
    case (Reg st c)
    then show ?thesis using "1.prems"(2) by (subst (asm) entries.simps) simp
  next
    case (Lnk st l t)
    then show ?thesis using "1.prems"(2) by (subst (asm) entries.simps) simp
  next
    case (Dir st es)
    from "1.prems"(2) Dir have
      "(n, a, e) = (name, arcname, nd)
       \<or> (\<exists>(f, c) \<in> set es. (n, a, e) \<in> set (entries (path_join name f) (path_join arcname f) c))"
      by (subst (asm) entries.simps) auto
    then show ?thesis
    proof
      assume "(n, a, e) = (name, arcname, nd)"
      then show ?thesis by simp
    next
      assume "\<exists>(f, c) \<in> set es. (n, a, e) \<in> set (entries (path_join name f) (path_join arcname f) c)"
      then obtain f c where x: "(f, c) \<in> set es"
        and m: "(n, a, e) \<in> set (entries (path_join name f) (path_join arcname f) c)"
        by auto
      have w: "wf_names c" and s: "CHR ''/'' \<notin> set f"
        using "1.prems"(1) Dir x by auto
      have "(f, c) \<in> set (sort_key fst es)"
        using x by simp
      from "1.IH" [OF Dir this refl w m] obtain y where "a = path_join arcname f @ y"
        by blast
      moreover obtain z where "path_join arcname f = arcname @ z"
        using path_join_append [OF no_slash_start [OF s]] by blast
      ultimately show ?thesis by simp
    qed
  qed
qed

lemma startswith_append: "startswith (p @ x) p"
  by (induction p) simp_all

lemma startswith_lstrip: "startswith (lstrip_slash (a @ x)) (lstrip_slash a)"
proof (cases "\<forall>c \<in> set a. c = CHR ''/''")
  case True
  then have e: "lstrip_slash a = []"
    by (simp add: lstrip_slash_def dropWhile_eq_Nil_conv)
  show ?thesis
    unfolding e by simp
next
  case False
  then obtain c where "c \<in> set a" "c \<noteq> CHR ''/''"
    by blast
  then have "lstrip_slash (a @ x) = lstrip_slash a @ x"
    unfolding lstrip_slash_def by (rule dropWhile_append1)
  then show ?thesis
    by (simp add: startswith_append)
qed

lemma members_report_added: "members (report_added self name) = []"
  by (simp add: members_def report_added_def)

lemma members_Member: "members (Member t # evs) = t # members evs"
  by (simp add: members_def)

lemma members_Nil: "members [] = []"
  by (simp add: members_def)

lemma add_all_added:
  assumes "name \<noteq> []"
    and "\<forall>(n, a, e) \<in> set (entries name arcname nd). add_decision self cwd dirs n e = Inr Added"
  shows "members (fst (add self cwd dirs name arcname nd))
           = map (\<lambda>(n, a, e). tar_filter self (gettarinfo a e)) (entries name arcname nd)"
  using assms
proof (induction self cwd dirs name arcname nd rule: add.induct)
  case (1 self cwd dirs name arcname nd)
  have top: "(name, arcname, nd) \<in> set (entries name arcname nd)"
    by (subst entries.simps) simp
  then have k: "add_decision self cwd dirs name nd = Inr Added"
    using "1.prems"(2) by auto
  have mw: "members (report_added self name @ [Member (tar_filter self (gettarinfo arcname nd))])
              = [tar_filter self (gettarinfo arcname nd)]"
    by (simp add: members_append members_report_added members_Member members_Nil)
  show ?case
  proof (cases nd)
    case (Reg st c)
    then show ?thesis
      using k mw by (subst entries.simps) (simp add: add_Added_Reg)
  next
    case (Lnk st l t)
    then show ?thesis
      using k mw by (subst entries.simps) (simp add: add_Added_Lnk)
  next
    case (Dir st es)
    let ?body = "\<lambda>(f, c). add self cwd dirs (path_join name f) (path_join arcname f) c"
    let ?g = "\<lambda>(n, a, e). tar_filter self (gettarinfo a e)"
    have sub: "\<And>f c. (f, c) \<in> set (sort_key fst es) \<Longrightarrow>
                 set (entries (path_join name f) (path_join arcname f) c)
                   \<subseteq> set (entries name arcname nd)"
      using Dir by (subst (2) entries.simps) force
    have ih: "\<And>x. x \<in> set (sort_key fst es) \<Longrightarrow>
                members (fst (?body x))
                  = map ?g (case x of (f, c) \<Rightarrow> entries (path_join name f) (path_join arcname f) c)"
    proof -
      fix x assume x: "x \<in> set (sort_key fst es)"
      obtain f c where fc: "x = (f, c)" by (cases x)
      have a: "\<forall>(n, a, e) \<in> set (entries (path_join name f) (path_join arcname f) c).
                 add_decision self cwd dirs n e = Inr Added"
        using sub [OF x [unfolded fc]] "1.prems"(2) by blast
      from "1.IH" [OF k refl refl Dir x [unfolded fc] refl path_join_nonempty [OF "1.prems"(1)] a]
      show "members (fst (?body x))
              = map ?g (case x of (f, c) \<Rightarrow> entries (path_join name f) (path_join arcname f) c)"
        by (simp add: fc)
    qed
    have ne: "\<And>x. x \<in> set (sort_key fst es) \<Longrightarrow> snd (?body x) = None"
      using add_no_exc [OF path_join_nonempty [OF "1.prems"(1)]] by (auto split: prod.splits)
    have fe: "for_each ?body (sort_key fst es)
                = (concat (map (\<lambda>x. fst (?body x)) (sort_key fst es)), None)"
      using ne by (rule for_each_no_exc)
    have "members (fst (add self cwd dirs name arcname nd))
            = tar_filter self (gettarinfo arcname nd)
                # concat (map (\<lambda>x. members (fst (?body x))) (sort_key fst es))"
      using k Dir fe
      by (simp add: add_Added_Dir members_append members_report_added members_Member
            members_concat comp_def)
    also have "concat (map (\<lambda>x. members (fst (?body x))) (sort_key fst es))
                 = concat (map (\<lambda>x. map ?g (case x of (f, c) \<Rightarrow>
                                   entries (path_join name f) (path_join arcname f) c))
                             (sort_key fst es))"
      by (rule arg_cong [where f = concat], rule map_cong [OF refl], rule ih)
    also have "tar_filter self (gettarinfo arcname nd) # \<dots> = map ?g (entries name arcname nd)"
      using Dir by (subst (2) entries.simps) (simp add: map_concat comp_def)
    finally show ?thesis .
  qed
qed

lemma lstat_below_wf:
  assumes "lstat_src w src_dir = Some root" and "wf_names root"
    and "lstat_below w src_dir rel = Some nd"
  shows "wf_names nd"
  using assms by (auto simp add: lstat_below_def intro: lookup_wf)

lemma decimal_example: "decimal 1700000000 = ''1700000000''"
  by (simp add: decimal.simps digit_char_def)

lemma decimal_ends:
  "\<exists>h r. decimal n = h # r \<and> \<not> py_isspace h \<and> \<not> py_isspace (last (decimal n))"
proof -
  obtain h r where d: "decimal n = h # r"
    using decimal_digits [of n] by (cases "decimal n") auto
  have a: "\<forall>c \<in> set (decimal n). \<exists>k<10. c = digit_char k"
    using decimal_digits [of n] by (simp add: list_all_iff)
  have "h \<in> set (decimal n)" "last (decimal n) \<in> set (decimal n)"
    using d by simp_all
  with a have "\<not> py_isspace h" "\<not> py_isspace (last (decimal n))"
    by (auto simp add: digit_char_facts)
  with d show ?thesis by blast
qed

lemma dropWhile_rev_last:
  "xs \<noteq> [] \<Longrightarrow> \<not> P (last xs) \<Longrightarrow> dropWhile P (rev xs) = rev xs"
  by (cases xs rule: rev_cases) simp_all

lemma py_strip_decimal:
  assumes "list_all py_isspace pre" and "list_all py_isspace post"
  shows "py_strip (pre @ decimal n @ post) = decimal n"
proof -
  obtain h r where d: "decimal n = h # r" and h: "\<not> py_isspace h"
    and l: "\<not> py_isspace (last (decimal n))"
    using decimal_ends by blast
  have "dropWhile py_isspace (pre @ decimal n @ post) = dropWhile py_isspace (decimal n @ post)"
    using assms(1) by (simp add: list_all_iff)
  also have "\<dots> = decimal n @ post"
    using d h by simp
  finally have a: "dropWhile py_isspace (pre @ decimal n @ post) = decimal n @ post" .
  have "decimal n \<noteq> []"
    using d by simp
  then have b: "dropWhile py_isspace (rev (decimal n)) = rev (decimal n)"
    using l by (rule dropWhile_rev_last)
  have "dropWhile py_isspace (rev (decimal n @ post))
          = dropWhile py_isspace (rev post @ rev (decimal n))"
    by simp
  also have "\<dots> = dropWhile py_isspace (rev (decimal n))"
  proof (rule dropWhile_append2)
    fix x assume "x \<in> set (rev post)"
    then show "py_isspace x"
      using assms(2) by (simp add: list_all_iff)
  qed
  finally have "dropWhile py_isspace (rev (decimal n @ post)) = rev (decimal n)"
    using b by simp
  then show ?thesis
    by (simp add: py_strip_def a)
qed

section \<open>The claims\<close>

text \<open>
  C1, as amended. In a trimmed run, an entry whose relative path is in \<open>ESSENTIAL_FILES\<close> or
  whose base name carries an always-keep marker is added, and its member is written, whatever
  prefix its relative path starts with, provided that none of the rules evaluated before the
  keep test skips it: the dangling-link rule, the \<open>__pycache__\<close>/\<open>.pyc\<close> rule, the
  \<open>.svn\<close>/\<open>out\<close> rule, the \<open>.git\<close> rule and the \<open>ChangeLog\<close> rule.
\<close>

theorem keep_file_is_added:
  assumes "self_remove_nonessential_files self"
    and "relpath cwd name (self_src_dir self) = Inr rel_name"
    and "keep_file (snd (path_split name)) rel_name"
    and "\<not> skipped_by_earlier_rule name rel_name nd"
  shows "add_decision self cwd dirs name nd = Inr Added
       \<and> Member (tar_filter self (gettarinfo arcname nd))
            \<in> set (fst (add self cwd dirs name arcname nd))"
proof -
  have d: "add_decision self cwd dirs name nd = Inr Added"
    using add_decision_after_earlier_rules [OF assms(1,2,4)] assms(3) by simp
  from add_Added [OF d, of arcname] show ?thesis
    using d by auto
qed

text \<open>A \<open>BUILD.gn\<close> file below the trimmed prefix \<open>v8/test\<close> is added.\<close>

theorem keep_file_is_added_witness:
  "relpath ''/home'' ''src/v8/test/BUILD.gn'' ''src'' = Inr ''v8/test/BUILD.gn''
   \<and> startswith ''v8/test/BUILD.gn'' ''v8/test''
   \<and> ''v8/test'' \<in> set ex_order
   \<and> isfile (Reg ex_stat ''group'')
   \<and> add_decision ex_archive ''/home'' ex_order ''src/v8/test/BUILD.gn''
        (Reg ex_stat ''group'') = Inr Added
   \<and> Member (tar_filter ex_archive
               (gettarinfo ''chromium/v8/test/BUILD.gn'' (Reg ex_stat ''group'')))
        \<in> set (fst (add ex_archive ''/home'' ex_order ''src/v8/test/BUILD.gn''
                       ''chromium/v8/test/BUILD.gn'' (Reg ex_stat ''group'')))"
proof -
  have h1: "self_remove_nonessential_files ex_archive"
    by (simp add: path_defs rule_defs)
  have h2: "relpath ''/home'' ''src/v8/test/BUILD.gn'' (self_src_dir ex_archive)
              = Inr ''v8/test/BUILD.gn''"
    by (simp add: path_defs rule_defs)
  have h3: "keep_file (snd (path_split ''src/v8/test/BUILD.gn'')) ''v8/test/BUILD.gn''"
    by (simp add: path_defs rule_defs)
  have h4: "\<not> skipped_by_earlier_rule ''src/v8/test/BUILD.gn'' ''v8/test/BUILD.gn''
               (Reg ex_stat ''group'')"
    by (simp add: path_defs rule_defs)
  have e1: "relpath ''/home'' ''src/v8/test/BUILD.gn'' ''src'' = Inr ''v8/test/BUILD.gn''"
    by (simp add: path_defs rule_defs)
  have e2: "startswith ''v8/test/BUILD.gn'' ''v8/test''"
    by (simp add: path_defs rule_defs)
  have e3: "''v8/test'' \<in> set ex_order"
    by (simp add: path_defs rule_defs)
  have e4: "isfile (Reg ex_stat ''group'')"
    by (simp add: isfile_def)
  from keep_file_is_added [OF h1 h2 h3 h4,
      of ex_order "''chromium/v8/test/BUILD.gn''"] e1 e2 e3 e4
  show ?thesis by blast
qed

text \<open>
  C1 as stated fails: a regular file \<open>BUILD.gn\<close> carries the \<open>.gn\<close> marker, yet it is
  skipped in a trimmed run when its path contains \<open>ChangeLog\<close>, because that rule is
  evaluated before the keep test.
\<close>

theorem keep_file_counterexample:
  "keep_file (snd (path_split ''src/third_party/ChangeLog/BUILD.gn''))
     ''third_party/ChangeLog/BUILD.gn''
   \<and> relpath ''/home'' ''src/third_party/ChangeLog/BUILD.gn'' (self_src_dir ex_archive)
       = Inr ''third_party/ChangeLog/BUILD.gn''
   \<and> self_remove_nonessential_files ex_archive
   \<and> add_decision ex_archive ''/home'' ex_order ''src/third_party/ChangeLog/BUILD.gn''
        (Reg ex_stat ''x'') = Inr Skipped"
  by (simp add: path_defs rule_defs)

text \<open>
  C3. A symbolic link whose target does not exist is skipped and no member is written for it,
  whatever the trim mode, its name and its relative path.
\<close>

theorem dangling_symlink_is_skipped:
  assumes "islink nd" and "\<not> path_exists nd"
  shows "add_decision self cwd dirs name nd = Inr Skipped
       \<and> add self cwd dirs name arcname nd = (report_skipped self name, None)
       \<and> members (fst (add self cwd dirs name arcname nd)) = []"
proof -
  have d: "add_decision self cwd dirs name nd = Inr Skipped"
    using assms by (simp add: add_decision_def)
  show ?thesis
    using d by (simp add: add_Skipped members_def report_skipped_def)
qed

text \<open>A dangling link at the path of an essential file is skipped.\<close>

theorem dangling_symlink_is_skipped_witness:
  "islink (Lnk ex_stat ''../gone.tq'' None) \<and> \<not> path_exists (Lnk ex_stat ''../gone.tq'' None)
   \<and> relpath ''/home'' ''src/v8/test/torque/test-torque.tq'' (self_src_dir ex_archive)
        \<in> Inr ` set ESSENTIAL_FILES
   \<and> add_decision ex_archive ''/home'' ex_order ''src/v8/test/torque/test-torque.tq''
        (Lnk ex_stat ''../gone.tq'' None) = Inr Skipped
   \<and> members (fst (add ex_archive ''/home'' ex_order ''src/v8/test/torque/test-torque.tq''
                      ''chromium/v8/test/torque/test-torque.tq''
                      (Lnk ex_stat ''../gone.tq'' None))) = []"
proof -
  have h1: "islink (Lnk ex_stat ''../gone.tq'' None)"
    by simp
  have h2: "\<not> path_exists (Lnk ex_stat ''../gone.tq'' None)"
    by (simp add: path_exists_def)
  have e: "relpath ''/home'' ''src/v8/test/torque/test-torque.tq'' (self_src_dir ex_archive)
             \<in> Inr ` set ESSENTIAL_FILES"
    by (simp add: path_defs rule_defs)
  from dangling_symlink_is_skipped [OF h1 h2, of ex_archive "''/home''" ex_order
      "''src/v8/test/torque/test-torque.tq''" "''chromium/v8/test/torque/test-torque.tq''"]
    h1 h2 e
  show ?thesis by blast
qed

text \<open>
  C10. The trimmed-prefix test compares characters, not path components: in a trimmed run,
  every regular file that is not kept and whose relative path starts with the characters of
  an entry of \<open>nonessential_dirs\<close> or \<open>TEST_DIRS\<close> is skipped, whether or not it lies inside
  the directory of that name.
\<close>

theorem prefix_test_is_on_characters:
  assumes "self_remove_nonessential_files self"
    and "relpath cwd name (self_src_dir self) = Inr rel_name"
    and "isfile nd"
    and "\<not> keep_file (snd (path_split name)) rel_name"
    and "set dirs = set nonessential_dirs \<union> set TEST_DIRS"
    and "prefix \<in> set nonessential_dirs \<union> set TEST_DIRS"
    and "startswith rel_name prefix"
  shows "add_decision self cwd dirs name nd = Inr Skipped
       \<and> add self cwd dirs name arcname nd = (report_skipped self name, None)"
proof -
  have "trim_loop dirs rel_name (isfile nd)"
    using assms by (auto simp add: trim_loop_iff)
  then have "add_decision self cwd dirs name nd = Inr Skipped"
    using assms(1,2,4) by (simp add: add_decision_def Let_def)
  then show ?thesis by (simp add: add_Skipped)
qed

text \<open>The file \<open>v8/testsuite/foo.cc\<close> is not inside \<open>v8/test\<close>, and is skipped.\<close>

theorem prefix_test_is_on_characters_witness:
  "relpath ''/home'' ''src/v8/testsuite/foo.cc'' (self_src_dir ex_archive)
     = Inr ''v8/testsuite/foo.cc''
   \<and> str_split ''v8/testsuite/foo.cc'' CHR ''/'' = [''v8'', ''testsuite'', ''foo.cc'']
   \<and> startswith ''v8/testsuite/foo.cc'' ''v8/test''
   \<and> add_decision ex_archive ''/home'' ex_order ''src/v8/testsuite/foo.cc''
        (Reg ex_stat ''int x;'') = Inr Skipped"
proof -
  have h1: "self_remove_nonessential_files ex_archive"
    by (simp add: path_defs rule_defs)
  have h2: "relpath ''/home'' ''src/v8/testsuite/foo.cc'' (self_src_dir ex_archive)
              = Inr ''v8/testsuite/foo.cc''"
    by (simp add: path_defs rule_defs)
  have h3: "isfile (Reg ex_stat ''int x;'')"
    by (simp add: isfile_def)
  have h4: "\<not> keep_file (snd (path_split ''src/v8/testsuite/foo.cc'')) ''v8/testsuite/foo.cc''"
    by (simp add: path_defs rule_defs)
  have h5: "set ex_order = set nonessential_dirs \<union> set TEST_DIRS"
    by (simp add: ex_order_def)
  have h6: "''v8/test'' \<in> set nonessential_dirs \<union> set TEST_DIRS"
    by (simp add: nonessential_dirs_def)
  have h7: "startswith ''v8/testsuite/foo.cc'' ''v8/test''"
    by (simp add: path_defs rule_defs)
  have e: "str_split ''v8/testsuite/foo.cc'' CHR ''/'' = [''v8'', ''testsuite'', ''foo.cc'']"
    by (simp add: path_defs rule_defs)
  from prefix_test_is_on_characters [OF h1 h2 h3 h4 h5 h6 h7] h2 h7 e
  show ?thesis by simp
qed

text \<open>
  C2, as amended. In a trimmed run, a directory whose relative path starts with an entry of
  \<open>nonessential_dirs\<close> or \<open>TEST_DIRS\<close> is added, unless one of the rules evaluated before
  the keep test skips it: its directory member is written and \<open>add\<close> is called on each of
  its entries in sorted order. The trim rule itself only skips objects for which
  \<open>os.path.isfile\<close> holds (regular files, and links that resolve to one).
\<close>

theorem trimmed_directory_is_added:
  assumes "self_remove_nonessential_files self"
    and "relpath cwd name (self_src_dir self) = Inr rel_name"
    and "prefix \<in> set dirs" and "startswith rel_name prefix"
    and "\<not> skipped_by_earlier_rule name rel_name (Dir st es)"
  shows "add_decision self cwd dirs name (Dir st es) = Inr Added
       \<and> ti_type (tar_filter self (gettarinfo arcname (Dir st es))) = DIRTYPE
       \<and> add self cwd dirs name arcname (Dir st es) =
           (report_added self name @ [Member (tar_filter self (gettarinfo arcname (Dir st es)))]
              @ fst (for_each
                       (\<lambda>(f, c). add self cwd dirs (path_join name f) (path_join arcname f) c)
                       (sort_key fst es)),
            snd (for_each
                   (\<lambda>(f, c). add self cwd dirs (path_join name f) (path_join arcname f) c)
                   (sort_key fst es)))
       \<and> (\<forall>name' rel_name' nd'.
             relpath cwd name' (self_src_dir self) = Inr rel_name'
             \<and> \<not> skipped_by_earlier_rule name' rel_name' nd'
             \<and> add_decision self cwd dirs name' nd' = Inr Skipped
             \<longrightarrow> isfile nd')"
proof -
  have nf: "\<not> isfile (Dir st es)"
    by (simp add: isfile_def)
  have d: "add_decision self cwd dirs name (Dir st es) = Inr Added"
    using add_decision_after_earlier_rules [OF assms(1,2,5)] nf
    by (simp add: trim_loop_iff)
  have t: "ti_type (tar_filter self (gettarinfo arcname (Dir st es))) = DIRTYPE"
    by (simp add: tar_filter_def gettarinfo_def)
  have a: "add self cwd dirs name arcname (Dir st es) =
           (report_added self name @ [Member (tar_filter self (gettarinfo arcname (Dir st es)))]
              @ fst (for_each
                       (\<lambda>(f, c). add self cwd dirs (path_join name f) (path_join arcname f) c)
                       (sort_key fst es)),
            snd (for_each
                   (\<lambda>(f, c). add self cwd dirs (path_join name f) (path_join arcname f) c)
                   (sort_key fst es)))"
    using d by (rule add_Added_Dir)
  have o: "\<forall>name' rel_name' nd'.
             relpath cwd name' (self_src_dir self) = Inr rel_name'
             \<and> \<not> skipped_by_earlier_rule name' rel_name' nd'
             \<and> add_decision self cwd dirs name' nd' = Inr Skipped
             \<longrightarrow> isfile nd'"
  proof (intro allI impI)
    fix name' rel_name' nd'
    assume h: "relpath cwd name' (self_src_dir self) = Inr rel_name'
             \<and> \<not> skipped_by_earlier_rule name' rel_name' nd'
             \<and> add_decision self cwd dirs name' nd' = Inr Skipped"
    then show "isfile nd'"
      using add_decision_after_earlier_rules [OF assms(1), of cwd name' rel_name' nd' dirs]
      by (auto simp add: trim_loop_iff split: if_splits)
  qed
  from d t a o show ?thesis by blast
qed

text \<open>The directory \<open>v8/test\<close> holding one source file: the directory member is the only
  member written, and the file that is skipped is a regular file.\<close>

theorem trimmed_directory_is_added_witness:
  "relpath ''/home'' ''src/v8/test'' (self_src_dir ex_archive) = Inr ''v8/test''
   \<and> add_decision ex_archive ''/home'' ex_order ''src/v8/test''
        (Dir ex_stat [(''b.cc'', Reg ex_stat ''z'')]) = Inr Added
   \<and> members (fst (add ex_archive ''/home'' ex_order ''src/v8/test'' ''chromium/v8/test''
                      (Dir ex_stat [(''b.cc'', Reg ex_stat ''z'')])))
       = [tar_filter ex_archive
            (gettarinfo ''chromium/v8/test'' (Dir ex_stat [(''b.cc'', Reg ex_stat ''z'')]))]
   \<and> add_decision ex_archive ''/home'' ex_order ''src/v8/test/b.cc'' (Reg ex_stat ''z'')
       = Inr Skipped
   \<and> isfile (Reg ex_stat ''z'')"
proof -
  have h1: "self_remove_nonessential_files ex_archive"
    by (simp add: rule_defs)
  have h2: "relpath ''/home'' ''src/v8/test'' (self_src_dir ex_archive) = Inr ''v8/test''"
    by (simp add: path_defs rule_defs)
  have h3: "''v8/test'' \<in> set ex_order"
    by (simp add: rule_defs)
  have h4: "startswith ''v8/test'' ''v8/test''"
    by simp
  have h5: "\<not> skipped_by_earlier_rule ''src/v8/test'' ''v8/test''
               (Dir ex_stat [(''b.cc'', Reg ex_stat ''z'')])"
    by (simp add: path_defs rule_defs)
  have k1: "relpath ''/home'' ''src/v8/test/b.cc'' (self_src_dir ex_archive)
              = Inr ''v8/test/b.cc''"
    by (simp add: path_defs rule_defs)
  have k2: "\<not> skipped_by_earlier_rule ''src/v8/test/b.cc'' ''v8/test/b.cc'' (Reg ex_stat ''z'')"
    by (simp add: path_defs rule_defs)
  have k3: "add_decision ex_archive ''/home'' ex_order ''src/v8/test/b.cc'' (Reg ex_stat ''z'')
              = Inr Skipped"
    by (simp add: path_defs rule_defs)
  have j: "path_join ''src/v8/test'' ''b.cc'' = ''src/v8/test/b.cc''"
    by (simp add: path_defs)
  note c = trimmed_directory_is_added [OF h1 h2 h3 h4 h5, of "''chromium/v8/test''"]
  have m: "members (fst (add ex_archive ''/home'' ex_order ''src/v8/test'' ''chromium/v8/test''
                           (Dir ex_stat [(''b.cc'', Reg ex_stat ''z'')])))
       = [tar_filter ex_archive
            (gettarinfo ''chromium/v8/test'' (Dir ex_stat [(''b.cc'', Reg ex_stat ''z'')]))]"
    using c k3 j
    by (simp add: add_Skipped members_def report_added_def report_skipped_def ex_archive_def)
  from c k1 k2 k3 have "isfile (Reg ex_stat ''z'')"
    by blast
  with c h2 k3 m show ?thesis by blast
qed

text \<open>
  C2 as stated fails: the directory \<open>v8/test/__pycache__\<close> lies below the trimmed prefix
  \<open>v8/test\<close> and is skipped, by the rule on cache directories.
\<close>

theorem trimmed_directory_counterexample:
  "relpath ''/home'' ''src/v8/test/__pycache__'' (self_src_dir ex_archive)
     = Inr ''v8/test/__pycache__''
   \<and> startswith ''v8/test/__pycache__'' ''v8/test''
   \<and> ''v8/test'' \<in> set ex_order
   \<and> self_remove_nonessential_files ex_archive
   \<and> isdir (Dir ex_stat [])
   \<and> add_decision ex_archive ''/home'' ex_order ''src/v8/test/__pycache__'' (Dir ex_stat [])
       = Inr Skipped"
  by (simp add: path_defs rule_defs)

text \<open>
  C7, as amended. An entry whose base name is \<open>.svn\<close> or \<open>out\<close> is skipped unless the
  directory part of its path, as a string, contains \<open>node_modules\<close>; when it does, the rule
  does not apply and the decision is that of the remaining rules: the dangling-link rule, and
  in a trimmed run the \<open>ChangeLog\<close> rule, the keep test and the trim rule.
\<close>

theorem svn_out_rule:
  assumes "snd (path_split name) \<in> set [''.svn'', ''out'']"
  shows "(\<not> str_in ''node_modules'' (fst (path_split name))
            \<longrightarrow> add_decision self cwd dirs name nd = Inr Skipped)
       \<and> (str_in ''node_modules'' (fst (path_split name))
            \<longrightarrow> (\<exists>rel_name. relpath cwd name (self_src_dir self) = Inr rel_name
                  \<and> add_decision self cwd dirs name nd =
                      (if islink nd \<and> \<not> path_exists nd then Inr Skipped
                       else if self_remove_nonessential_files self then
                         (if str_in ''ChangeLog'' name then Inr Skipped
                          else if \<not> keep_file (snd (path_split name)) rel_name
                                  \<and> trim_loop dirs rel_name (isfile nd) then Inr Skipped
                          else Inr Added)
                       else Inr Added)))"
proof -
  have "name \<noteq> []"
    using assms by (auto simp add: path_split_Nil)
  then obtain rel_name where r: "relpath cwd name (self_src_dir self) = Inr rel_name"
    using relpath_nonempty by blast
  note d = add_decision_svn_out [OF assms r, of dirs nd]
  have p1: "\<not> str_in ''node_modules'' (fst (path_split name))
            \<longrightarrow> add_decision self cwd dirs name nd = Inr Skipped"
    using d by simp
  have p2: "str_in ''node_modules'' (fst (path_split name))
            \<longrightarrow> (\<exists>rel_name. relpath cwd name (self_src_dir self) = Inr rel_name
                  \<and> add_decision self cwd dirs name nd =
                      (if islink nd \<and> \<not> path_exists nd then Inr Skipped
                       else if self_remove_nonessential_files self then
                         (if str_in ''ChangeLog'' name then Inr Skipped
                          else if \<not> keep_file (snd (path_split name)) rel_name
                                  \<and> trim_loop dirs rel_name (isfile nd) then Inr Skipped
                          else Inr Added)
                       else Inr Added))"
    using d r by auto
  from p1 p2 show ?thesis by (rule conjI)
qed

text \<open>The build directory \<open>src/out\<close> is skipped; the directory \<open>out\<close> of a module below
  \<open>node_modules\<close> is added.\<close>

theorem svn_out_rule_witness:
  "snd (path_split ''src/out'') \<in> set [''.svn'', ''out'']
   \<and> \<not> str_in ''node_modules'' (fst (path_split ''src/out''))
   \<and> add_decision ex_archive ''/home'' ex_order ''src/out'' (Dir ex_stat []) = Inr Skipped
   \<and> snd (path_split ''src/node_modules/acorn/out'') \<in> set [''.svn'', ''out'']
   \<and> str_in ''node_modules'' (fst (path_split ''src/node_modules/acorn/out''))
   \<and> add_decision ex_archive ''/home'' ex_order ''src/node_modules/acorn/out'' (Dir ex_stat [])
       = Inr Added"
proof -
  have h1: "snd (path_split ''src/out'') \<in> set [''.svn'', ''out'']"
    by (simp add: path_defs)
  have n1: "\<not> str_in ''node_modules'' (fst (path_split ''src/out''))"
    by (simp add: path_defs)
  have h2: "snd (path_split ''src/node_modules/acorn/out'') \<in> set [''.svn'', ''out'']"
    by (simp add: path_defs)
  have n2: "str_in ''node_modules'' (fst (path_split ''src/node_modules/acorn/out''))"
    by (simp add: path_defs)
  have r2: "relpath ''/home'' ''src/node_modules/acorn/out'' (self_src_dir ex_archive)
              = Inr ''node_modules/acorn/out''"
    by (simp add: path_defs rule_defs)
  have v2: "(if islink (Dir ex_stat []) \<and> \<not> path_exists (Dir ex_stat []) then Inr Skipped
             else if self_remove_nonessential_files ex_archive then
               (if str_in ''ChangeLog'' ''src/node_modules/acorn/out'' then Inr Skipped
                else if \<not> keep_file (snd (path_split ''src/node_modules/acorn/out''))
                             ''node_modules/acorn/out''
                        \<and> trim_loop ex_order ''node_modules/acorn/out'' (isfile (Dir ex_stat []))
                     then Inr Skipped
                else Inr Added)
             else Inr Added) = (Inr Added :: exc + decision)"
    by (simp add: path_defs rule_defs trim_loop_iff)
  from svn_out_rule [OF h1, of ex_archive "''/home''" ex_order "Dir ex_stat []"] n1
  have a1: "add_decision ex_archive ''/home'' ex_order ''src/out'' (Dir ex_stat []) = Inr Skipped"
    by blast
  from svn_out_rule [OF h2, of ex_archive "''/home''" ex_order "Dir ex_stat []"] n2 r2 v2
  have a2: "add_decision ex_archive ''/home'' ex_order ''src/node_modules/acorn/out''
              (Dir ex_stat []) = Inr Added"
    by auto
  from h1 n1 a1 h2 n2 a2 show ?thesis by blast
qed

text \<open>
  C7 as stated fails: no component of the path \<open>src/third_party/node_modules_cache/out\<close> is
  \<open>node_modules\<close>, yet the directory is not skipped, since the source tests for a substring.
\<close>

theorem svn_out_rule_counterexample:
  "snd (path_split ''src/third_party/node_modules_cache/out'') = ''out''
   \<and> ''node_modules'' \<notin> set (str_split ''src/third_party/node_modules_cache/out'' CHR ''/'')
   \<and> add_decision ex_archive_full ''/home'' ex_order ''src/third_party/node_modules_cache/out''
        (Dir ex_stat []) = Inr Added"
  by (simp add: path_defs rule_defs)

text \<open>
  C4. Every member written to the archive is the \<open>TarInfo\<close> of one object that the run
  visited and added, after \<open>__filter\<close>: its name is the archive path of that object, its
  type, bytes and link text are those of the object, and its mode is the permission bits of
  that same object with the owner-write bit set and every other bit as it was. Its numeric
  owner and group are 0 and their names are \<open>"0"\<close>. Its timestamp is the integer that
  \<open>int\<close> makes of the content of \<open>build/util/LASTCHANGE.committime\<close> below the source
  directory, the number \<open>n\<close> when that content is the decimal numeral of \<open>n\<close> with
  whitespace around it; \<open>main\<close> reads it once, before the walk.
\<close>

theorem members_are_normalised:
  assumes "tarball (main w options args) = Some (fn, ms)"
    and "ti \<in> set ms"
  shows "\<exists>src_dir root nd_t st c timestamp name arcname nd.
           opt_src_dir options = Some src_dir
           \<and> lstat_src w src_dir = Some root
           \<and> lstat_below w src_dir ''build/util/LASTCHANGE.committime'' = Some nd_t
           \<and> resolve nd_t = Some (Reg st c)
           \<and> py_int c = Some timestamp
           \<and> (\<forall>n pre post.
                 c = pre @ decimal n @ post \<and> list_all py_isspace pre \<and> list_all py_isspace post
                 \<longrightarrow> timestamp = int n)
           \<and> (name, arcname, nd)
               \<in> set (candidates w options (output_basename options args) src_dir root)
           \<and> nd \<in> set (subnodes root)
           \<and> add_decision (configured options src_dir timestamp) (getcwd w) (set_order w)
                name nd = Inr Added
           \<and> ti_name ti = lstrip_slash arcname
           \<and> ti_type ti = (case nd of Reg s x \<Rightarrow> REGTYPE | Dir s es \<Rightarrow> DIRTYPE
                             | Lnk s l t \<Rightarrow> SYMTYPE)
           \<and> data ti = (case nd of Reg s x \<Rightarrow> x | _ \<Rightarrow> [])
           \<and> linkname ti = (case nd of Lnk s l t \<Rightarrow> l | _ \<Rightarrow> [])
           \<and> mtime ti = timestamp
           \<and> uid ti = 0 \<and> gid ti = 0 \<and> uname ti = ''0'' \<and> gname ti = ''0''
           \<and> mode ti = take_bit 12 (st_mode (node_stat nd)) OR S_IWUSR
           \<and> (\<forall>n. bit (mode ti) n = (n = 7 \<or> bit (take_bit 12 (st_mode (node_stat nd))) n))"
proof -
  from main_tarball_cases [OF assms(1)] assms(2) obtain src_dir root timestamp where
    s: "opt_src_dir options = Some src_dir" and r: "lstat_src w src_dir = Some root"
    and t: "read_timestamp w src_dir = Inr timestamp"
    and m: "ms = members (fst (walk w options args src_dir root timestamp))"
    by auto
  from read_timestamp_Inr [OF t] obtain nd_t st c where
    f1: "lstat_below w src_dir ''build/util/LASTCHANGE.committime'' = Some nd_t"
    and f2: "resolve nd_t = Some (Reg st c)"
    and f3: "py_int c = Some timestamp"
    by blast
  have f4: "\<forall>n pre post.
              c = pre @ decimal n @ post \<and> list_all py_isspace pre \<and> list_all py_isspace post
              \<longrightarrow> timestamp = int n"
  proof (intro allI impI)
    fix n pre post
    assume a: "c = pre @ decimal n @ post \<and> list_all py_isspace pre \<and> list_all py_isspace post"
    then have "py_strip c = decimal n"
      using py_strip_decimal [of pre post n] by simp
    then have "py_int c = Some (int n)"
      by (rule py_int_decimal)
    with f3 show "timestamp = int n"
      by simp
  qed
  have "Member ti \<in> set (fst (walk w options args src_dir root timestamp))"
    using assms(2) m by (simp add: members_iff)
  from walk_entries [OF r this] obtain name arcname nd where
    e: "(name, arcname, nd) \<in> set (candidates w options (output_basename options args) src_dir root)"
    and n: "nd \<in> set (subnodes root)"
    and k: "add_decision (configured options src_dir timestamp) (getcwd w) (set_order w) name nd
              = Inr Added"
    and f: "ti = tar_filter (configured options src_dir timestamp) (gettarinfo arcname nd)"
    by blast
  have g1: "ti_name ti = lstrip_slash arcname"
    using f by (simp add: tar_filter_fields gettarinfo_def)
  have g2: "ti_type ti = (case nd of Reg s x \<Rightarrow> REGTYPE | Dir s es \<Rightarrow> DIRTYPE
                             | Lnk s l t \<Rightarrow> SYMTYPE)"
    using f by (simp add: tar_filter_fields gettarinfo_def)
  have g3: "data ti = (case nd of Reg s x \<Rightarrow> x | _ \<Rightarrow> [])"
    using f by (simp add: tar_filter_fields gettarinfo_def)
  have g4: "linkname ti = (case nd of Lnk s l t \<Rightarrow> l | _ \<Rightarrow> [])"
    using f by (simp add: tar_filter_fields gettarinfo_def)
  have md: "mode ti = take_bit 12 (st_mode (node_stat nd)) OR S_IWUSR"
    using f by (simp add: tar_filter_fields gettarinfo_def)
  have b: "\<forall>n. bit (mode ti) n = (n = 7 \<or> bit (take_bit 12 (st_mode (node_stat nd))) n)"
    unfolding md by (auto simp add: bit_or_iff bit_S_IWUSR)
  have h: "mtime ti = timestamp" "uid ti = 0" "gid ti = 0" "uname ti = ''0''" "gname ti = ''0''"
    using f by (simp_all add: tar_filter_fields configured_def)
  show ?thesis
    using s r f1 f2 f3 f4 e n k g1 g2 g3 g4 h md b by blast
qed

text \<open>The member of an executable file, in a run whose timestamp file ends with a newline.\<close>

theorem members_are_normalised_witness:
  "tarball (main ex_world_stamp ex_options [''out/chromium-1''])
     = Some (''out/chromium-1.tar.xz'',
             members (fst (walk ex_world_stamp ex_options [''out/chromium-1''] ''src''
                             ex_tree_stamp 1700000000)))
   \<and> tar_filter (configured ex_options ''src'' 1700000000)
         (gettarinfo ''chromium-1/run.sh'' (Reg ex_stat ''exit''))
       \<in> set (members (fst (walk ex_world_stamp ex_options [''out/chromium-1''] ''src''
                               ex_tree_stamp 1700000000)))
   \<and> lstat_below ex_world_stamp ''src'' ''build/util/LASTCHANGE.committime''
       = Some (Reg ex_stat ([] @ decimal 1700000000 @ [CHR 0x0A]))
   \<and> list_all py_isspace [CHR 0x0A]
   \<and> mtime (tar_filter (configured ex_options ''src'' 1700000000)
               (gettarinfo ''chromium-1/run.sh'' (Reg ex_stat ''exit''))) = 1700000000
   \<and> uid (tar_filter (configured ex_options ''src'' 1700000000)
             (gettarinfo ''chromium-1/run.sh'' (Reg ex_stat ''exit''))) = 0
   \<and> gname (tar_filter (configured ex_options ''src'' 1700000000)
               (gettarinfo ''chromium-1/run.sh'' (Reg ex_stat ''exit''))) = ''0''
   \<and> take_bit 12 (st_mode ex_stat) = 365
   \<and> mode (tar_filter (configured ex_options ''src'' 1700000000)
              (gettarinfo ''chromium-1/run.sh'' (Reg ex_stat ''exit''))) = 493"
proof -
  let ?ti = "tar_filter (configured ex_options ''src'' 1700000000)
               (gettarinfo ''chromium-1/run.sh'' (Reg ex_stat ''exit''))"
  let ?evs = "fst (walk ex_world_stamp ex_options [''out/chromium-1''] ''src'' ex_tree_stamp
                     1700000000)"
  have l: "length [''out/chromium-1''] = 1"
    by simp
  have v: "opt_version ex_options = Some ''125.0''" "''125.0'' \<noteq> []"
    by (simp_all add: ex_options_def)
  have s: "opt_src_dir ex_options = Some ''src''"
    by (simp add: ex_options_def)
  have r: "lstat_src ex_world_stamp ''src'' = Some ex_tree_stamp"
    by (simp add: lstat_src_def stamp_defs)
  have p: "path_exists ex_tree_stamp"
    by (simp add: path_exists_def stamp_defs)
  have t: "read_timestamp ex_world_stamp ''src'' = Inr 1700000000"
    by (simp add: main_defs stamp_defs path_defs rule_defs)
  have m: "tarball (main ex_world_stamp ex_options [''out/chromium-1''])
             = Some (''out/chromium-1.tar.xz'', members ?evs)"
    using main_valid [OF l v s r p t] by simp
  have i: "?ti \<in> set (members ?evs)"
    by (simp add: main_defs stamp_defs path_defs rule_defs add.simps trim_loop_iff)
  have f: "lstat_below ex_world_stamp ''src'' ''build/util/LASTCHANGE.committime''
             = Some (Reg ex_stat ([] @ decimal 1700000000 @ [CHR 0x0A]))"
    by (simp add: main_defs stamp_defs decimal_example)
  have sp: "list_all py_isspace []" "list_all py_isspace [CHR 0x0A]"
    by (simp_all add: py_isspace_def)
  have md: "take_bit 12 (st_mode ex_stat) = 365"
    by (simp add: ex_stat_def take_bit_eq_mod)
  from members_are_normalised [OF m i] obtain src_dir nd_t st c timestamp name arcname nd where
    a1: "opt_src_dir ex_options = Some src_dir"
    and a2: "lstat_below ex_world_stamp src_dir ''build/util/LASTCHANGE.committime'' = Some nd_t"
    and a3: "resolve nd_t = Some (Reg st c)"
    and a4: "\<forall>n pre post.
               c = pre @ decimal n @ post \<and> list_all py_isspace pre \<and> list_all py_isspace post
               \<longrightarrow> timestamp = int n"
    and a5: "mtime ?ti = timestamp" "uid ?ti = 0" "gname ?ti = ''0''"
    by blast
  have "src_dir = ''src''"
    using a1 s by simp
  then have "c = [] @ decimal 1700000000 @ [CHR 0x0A]"
    using a2 a3 f by auto
  then have "timestamp = int 1700000000"
    using a4 sp by blast
  then have "mtime ?ti = 1700000000"
    using a5 by simp
  moreover have "mode ?ti = 493"
    by (simp add: tar_filter_def gettarinfo_def S_IWUSR_def ex_stat_def take_bit_eq_mod)
  ultimately show ?thesis
    using m i f sp md a5 by simp
qed

text \<open>
  C5, as amended. A usage error (not exactly one positional argument, no \<open>--version\<close>) and a
  source directory that does not exist make \<open>main\<close> return 1 before an output file is
  created. A timestamp file that cannot be read or converted is detected before the walk
  starts, so no member is written, but after the output file has been created: the exception
  leaves \<open>main\<close>, the process ends with status 1, and the output file exists.
\<close>

theorem failures_before_the_walk:
  "(length args \<noteq> 1 \<or> opt_version options = None \<or> opt_version options = Some []
      \<longrightarrow> returned (main w options args) = Inr 1 \<and> tarball (main w options args) = None)
   \<and> (length args = 1 \<and> opt_version options = Some v \<and> v \<noteq> []
        \<and> opt_src_dir options = Some src_dir \<and> \<not> src_dir_exists w src_dir
      \<longrightarrow> returned (main w options args) = Inr 1 \<and> tarball (main w options args) = None)
   \<and> (length args = 1 \<and> opt_version options = Some v \<and> v \<noteq> []
        \<and> opt_src_dir options = Some src_dir \<and> src_dir_exists w src_dir
        \<and> read_timestamp w src_dir = Inl e
      \<longrightarrow> returned (main w options args) = Inl e
          \<and> exit_status (main w options args) = 1
          \<and> stdout (main w options args) = []
          \<and> tarball (main w options args) = Some (args ! 0 @ ''.tar.xz'', []))"
proof -
  have p1: "length args \<noteq> 1 \<or> opt_version options = None \<or> opt_version options = Some []
      \<longrightarrow> returned (main w options args) = Inr 1 \<and> tarball (main w options args) = None"
    using main_usage_error [of args options w] by blast
  have p2: "length args = 1 \<and> opt_version options = Some v \<and> v \<noteq> []
        \<and> opt_src_dir options = Some src_dir \<and> \<not> src_dir_exists w src_dir
      \<longrightarrow> returned (main w options args) = Inr 1 \<and> tarball (main w options args) = None"
    using main_no_src_dir [of args options v src_dir w] by simp
  have p3: "length args = 1 \<and> opt_version options = Some v \<and> v \<noteq> []
        \<and> opt_src_dir options = Some src_dir \<and> src_dir_exists w src_dir
        \<and> read_timestamp w src_dir = Inl e
      \<longrightarrow> returned (main w options args) = Inl e
          \<and> exit_status (main w options args) = 1
          \<and> stdout (main w options args) = []
          \<and> tarball (main w options args) = Some (args ! 0 @ ''.tar.xz'', [])"
  proof
    assume a: "length args = 1 \<and> opt_version options = Some v \<and> v \<noteq> []
        \<and> opt_src_dir options = Some src_dir \<and> src_dir_exists w src_dir
        \<and> read_timestamp w src_dir = Inl e"
    then obtain root where "lstat_src w src_dir = Some root" "path_exists root"
      by (auto simp add: src_dir_exists_iff)
    with a have "main w options args =
           \<lparr>returned = Inl e, stdout = [], tarball = Some (args ! 0 @ ''.tar.xz'', [])\<rparr>"
      using main_timestamp_error [of args options v src_dir w root e] by simp
    then show "returned (main w options args) = Inl e
          \<and> exit_status (main w options args) = 1
          \<and> stdout (main w options args) = []
          \<and> tarball (main w options args) = Some (args ! 0 @ ''.tar.xz'', [])"
      by (simp add: exit_status_def)
  qed
  show ?thesis
    by (rule conjI [OF p1 conjI [OF p2 p3]])
qed

text \<open>An empty argument list, a world without the source directory, and a source directory
  without the timestamp file.\<close>

theorem failures_before_the_walk_witness:
  "length ([] :: string list) \<noteq> 1
   \<and> returned (main ex_world ex_options []) = Inr 1
   \<and> tarball (main ex_world ex_options []) = None
   \<and> \<not> src_dir_exists ex_world_no_src ''src''
   \<and> returned (main ex_world_no_src ex_options [''out/chromium-1'']) = Inr 1
   \<and> tarball (main ex_world_no_src ex_options [''out/chromium-1'']) = None
   \<and> src_dir_exists ex_world_no_timestamp ''src''
   \<and> read_timestamp ex_world_no_timestamp ''src'' = Inl OSError
   \<and> returned (main ex_world_no_timestamp ex_options [''out/chromium-1'']) = Inl OSError
   \<and> tarball (main ex_world_no_timestamp ex_options [''out/chromium-1''])
       = Some (''out/chromium-1.tar.xz'', [])"
proof -
  have a1: "length ([] :: string list) \<noteq> 1"
    by simp
  have l: "length [''out/chromium-1''] = 1"
    by simp
  have v: "opt_version ex_options = Some ''125.0''" "''125.0'' \<noteq> []"
    by (simp_all add: ex_options_def)
  have s: "opt_src_dir ex_options = Some ''src''"
    by (simp add: ex_options_def)
  have a2: "\<not> src_dir_exists ex_world_no_src ''src''"
    by (simp add: main_defs more_defs)
  have a3: "src_dir_exists ex_world_no_timestamp ''src''"
    by (simp add: main_defs more_defs rule_defs)
  have t3: "read_timestamp ex_world_no_timestamp ''src'' = Inl OSError"
    by (simp add: main_defs more_defs path_defs rule_defs)
  from failures_before_the_walk [of "[]" ex_options ex_world] a1
  have c1: "returned (main ex_world ex_options []) = Inr 1
            \<and> tarball (main ex_world ex_options []) = None"
    by blast
  from failures_before_the_walk [of "[''out/chromium-1'']" ex_options ex_world_no_src "''125.0''" "''src''"] l v s a2
  have c2: "returned (main ex_world_no_src ex_options [''out/chromium-1'']) = Inr 1
            \<and> tarball (main ex_world_no_src ex_options [''out/chromium-1'']) = None"
    by blast
  from failures_before_the_walk [of "[''out/chromium-1'']" ex_options ex_world_no_timestamp "''125.0''" "''src''" OSError]
    l v s a3 t3
  have c3: "returned (main ex_world_no_timestamp ex_options [''out/chromium-1'']) = Inl OSError
            \<and> tarball (main ex_world_no_timestamp ex_options [''out/chromium-1''])
                = Some (''out/chromium-1.tar.xz'', [])"
    by simp
  from a1 c1 a2 c2 a3 t3 c3 show ?thesis
    by blast
qed

text \<open>
  C5 as stated fails: when the timestamp file is missing the run fails before the walk, and
  the output file \<open>out/chromium-1.tar.xz\<close> has been created all the same, since line 156
  opens it before line 165 opens the timestamp file.
\<close>

theorem failures_before_the_walk_counterexample:
  "read_timestamp ex_world_no_timestamp ''src'' = Inl OSError
   \<and> returned (main ex_world_no_timestamp ex_options [''out/chromium-1'']) = Inl OSError
   \<and> tarball (main ex_world_no_timestamp ex_options [''out/chromium-1''])
       = Some (''out/chromium-1.tar.xz'', [])"
  by (simp add: main_defs path_defs rule_defs more_defs)

text \<open>
  C6, at the input on which the source departs from it: with one positional argument and a
  version but without \<open>--src-dir\<close>, \<open>options.src_dir\<close> is \<open>None\<close> and
  \<open>os.path.exists(None)\<close> raises \<open>TypeError\<close>, so \<open>main\<close> prints nothing and does not
  return 1; the process ends with status 1 through the uncaught exception. The other cases of
  the claim hold, see \<open>main_exit_codes\<close>.
\<close>

theorem main_without_src_dir_raises:
  "opt_src_dir ex_options_no_src_dir = None
   \<and> length [''out/chromium-1''] = 1
   \<and> opt_version ex_options_no_src_dir = Some ''125.0''
   \<and> returned (main ex_world ex_options_no_src_dir [''out/chromium-1'']) = Inl TypeError
   \<and> stdout (main ex_world ex_options_no_src_dir [''out/chromium-1'']) = []
   \<and> exit_status (main ex_world ex_options_no_src_dir [''out/chromium-1'']) = 1"
  by (simp add: main_defs more_defs)

text \<open>
  C8, as amended. In test-data mode, with valid arguments, an existing source directory, a
  readable timestamp and a compressor that exits with 0, \<open>main\<close> returns 0, and for every
  entry of \<open>TEST_DIRS\<close> that is not a directory on disk it prints
  \<open>"<test_dir>" not present; skipping.\<close> The members written are those that \<open>add\<close> writes for
  the test directories that are present, in the order of \<open>TEST_DIRS\<close>. Each member is the
  normalised \<open>TarInfo\<close> of an object below a present test directory that \<open>add\<close> did not
  skip, and its name starts with \<open>os.path.join(basename, directory)\<close>, where the base name is
  \<open>--basename\<close> or else the base name of the output argument. When \<open>add\<close> skips nothing
  below the present test directories, the members are exactly their contents, in walk order.
  What a rule of \<open>add\<close> skips is not archived, and a test directory that is a symbolic link
  to a directory is archived as the link alone.
\<close>

theorem missing_test_dirs_are_skipped:
  assumes "length args = 1"
    and "opt_version options = Some v" and "v \<noteq> []"
    and "opt_src_dir options = Some src_dir"
    and "lstat_src w src_dir = Some root" and "path_exists root" and "wf_names root"
    and "read_timestamp w src_dir = Inr timestamp"
    and "opt_test_data options"
    and "xz_status w = 0"
    and "base = (case opt_basename options of
                   None \<Rightarrow> basename (args ! 0)
                 | Some b \<Rightarrow> if b = [] then basename (args ! 0) else b)"
  shows "returned (main w options args) = Inr 0
       \<and> (\<forall>directory \<in> set TEST_DIRS.
             \<not> test_dir_present w src_dir directory
             \<longrightarrow> [CHR 0x22] @ path_join src_dir directory @ [CHR 0x22] @ '' not present; skipping.''
                   \<in> set (stdout (main w options args)))
       \<and> (\<exists>ms. tarball (main w options args) = Some (args ! 0 @ ''.tar.xz'', ms)
             \<and> ms = concat (map (\<lambda>directory.
                                    members (fst (add (configured options src_dir timestamp)
                                                    (getcwd w) (set_order w)
                                                    (path_join src_dir directory)
                                                    (path_join base directory)
                                                    (the (lstat_below w src_dir directory)))))
                                 (filter (test_dir_present w src_dir) TEST_DIRS))
             \<and> (\<forall>ti \<in> set ms.
                   \<exists>directory name arcname nd.
                     directory \<in> set TEST_DIRS
                     \<and> test_dir_present w src_dir directory
                     \<and> (name, arcname, nd)
                         \<in> set (entries (path_join src_dir directory) (path_join base directory)
                                  (the (lstat_below w src_dir directory)))
                     \<and> add_decision (configured options src_dir timestamp) (getcwd w)
                          (set_order w) name nd = Inr Added
                     \<and> ti = tar_filter (configured options src_dir timestamp)
                              (gettarinfo arcname nd)
                     \<and> startswith (ti_name ti) (lstrip_slash (path_join base directory)))
             \<and> ((\<forall>(name, arcname, nd) \<in> set (test_data_entries w src_dir base).
                    add_decision (configured options src_dir timestamp) (getcwd w)
                      (set_order w) name nd = Inr Added)
                 \<longrightarrow> ms = map (\<lambda>(name, arcname, nd).
                                 tar_filter (configured options src_dir timestamp)
                                   (gettarinfo arcname nd))
                              (test_data_entries w src_dir base)))"
proof -
  let ?archive = "configured options src_dir timestamp"
  let ?step = "test_data_step w ?archive src_dir base"
  let ?nd = "\<lambda>directory. the (lstat_below w src_dir directory)"
  let ?add = "\<lambda>directory. add ?archive (getcwd w) (set_order w) (path_join src_dir directory)
                 (path_join base directory) (?nd directory)"
  let ?present = "filter (test_dir_present w src_dir) TEST_DIRS"
  let ?ms = "concat (map (\<lambda>d. members (fst (?add d))) ?present)"
  let ?g = "\<lambda>(name, arcname, nd). tar_filter ?archive (gettarinfo arcname nd)"
  have b: "output_basename options args = base"
    using assms(11) by (simp add: output_basename_def)
  have n: "src_dir \<noteq> []"
    using assms(5) by (rule lstat_src_nonempty)
  have wk: "walk w options args src_dir root timestamp
              = (concat (map (\<lambda>d. fst (?step d)) TEST_DIRS), None)"
    using assms(9) for_each_no_exc [of TEST_DIRS ?step] test_data_step_no_exc [OF n]
    by (simp add: walk_def b)
  note mv = main_valid [OF assms(1,2,3,4,5,6,8)]
  have c1: "returned (main w options args) = Inr 0"
    using mv assms(10) by simp
  have c2: "\<forall>directory \<in> set TEST_DIRS.
             \<not> test_dir_present w src_dir directory
             \<longrightarrow> [CHR 0x22] @ path_join src_dir directory @ [CHR 0x22] @ '' not present; skipping.''
                   \<in> set (stdout (main w options args))"
  proof (intro ballI impI)
    fix directory
    assume d: "directory \<in> set TEST_DIRS" and a: "\<not> test_dir_present w src_dir directory"
    have "Print (skip_message (path_join src_dir directory)) \<in> set (fst (?step directory))"
      using test_data_step_absent [OF a] by simp
    then have "Print (skip_message (path_join src_dir directory))
                 \<in> set (fst (walk w options args src_dir root timestamp))"
      using d unfolding wk by auto
    then have "skip_message (path_join src_dir directory) \<in> set (stdout (main w options args))"
      using mv assms(10) by (simp add: prints_iff)
    then show "[CHR 0x22] @ path_join src_dir directory @ [CHR 0x22] @ '' not present; skipping.''
                 \<in> set (stdout (main w options args))"
      by (simp add: skip_message_def)
  qed
  have "members (fst (walk w options args src_dir root timestamp))
          = concat (map (\<lambda>d. members (fst (?step d))) TEST_DIRS)"
    unfolding wk by (simp add: members_concat comp_def)
  also have "\<dots> = concat (map (\<lambda>d. members (fst (?step d))) ?present)"
    by (rule concat_map_filter) (simp add: test_data_step_absent members_def)
  also have "\<dots> = ?ms"
    by (rule arg_cong [where f = concat], rule map_cong) (simp_all add: test_data_step_present)
  finally have c3: "tarball (main w options args) = Some (args ! 0 @ ''.tar.xz'', ?ms)"
    using mv by simp
  have c4: "\<forall>ti \<in> set ?ms.
              \<exists>directory name arcname nd.
                directory \<in> set TEST_DIRS
                \<and> test_dir_present w src_dir directory
                \<and> (name, arcname, nd)
                    \<in> set (entries (path_join src_dir directory) (path_join base directory)
                             (?nd directory))
                \<and> add_decision ?archive (getcwd w) (set_order w) name nd = Inr Added
                \<and> ti = tar_filter ?archive (gettarinfo arcname nd)
                \<and> startswith (ti_name ti) (lstrip_slash (path_join base directory))"
  proof
    fix ti assume "ti \<in> set ?ms"
    then obtain directory where d: "directory \<in> set TEST_DIRS"
      and p: "test_dir_present w src_dir directory"
      and m: "ti \<in> set (members (fst (?add directory)))"
      by auto
    have "Member ti \<in> set (fst (?add directory))"
      using m by (simp add: members_iff)
    from add_entries [OF this] obtain name arcname nd where
      e: "(name, arcname, nd) \<in> set (entries (path_join src_dir directory)
                                       (path_join base directory) (?nd directory))"
      and k: "add_decision ?archive (getcwd w) (set_order w) name nd = Inr Added"
      and t: "ti = tar_filter ?archive (gettarinfo arcname nd)"
      by blast
    obtain tnd where l: "lstat_below w src_dir directory = Some tnd"
      using p by (auto simp add: test_dir_present_def split: option.splits)
    have "wf_names tnd"
      using assms(5,7) l by (rule lstat_below_wf)
    then obtain x where "arcname = path_join base directory @ x"
      using entries_arcname [of tnd name arcname nd] e l by auto
    moreover have "ti_name ti = lstrip_slash arcname"
      using t by (simp add: tar_filter_fields gettarinfo_def)
    ultimately have "startswith (ti_name ti) (lstrip_slash (path_join base directory))"
      by (simp add: startswith_lstrip)
    with d p e k t
    show "\<exists>directory name arcname nd.
                directory \<in> set TEST_DIRS
                \<and> test_dir_present w src_dir directory
                \<and> (name, arcname, nd)
                    \<in> set (entries (path_join src_dir directory) (path_join base directory)
                             (?nd directory))
                \<and> add_decision ?archive (getcwd w) (set_order w) name nd = Inr Added
                \<and> ti = tar_filter ?archive (gettarinfo arcname nd)
                \<and> startswith (ti_name ti) (lstrip_slash (path_join base directory))"
      by blast
  qed
  have c5: "(\<forall>(name, arcname, nd) \<in> set (test_data_entries w src_dir base).
               add_decision ?archive (getcwd w) (set_order w) name nd = Inr Added)
            \<longrightarrow> ?ms = map ?g (test_data_entries w src_dir base)"
  proof
    assume a: "\<forall>(name, arcname, nd) \<in> set (test_data_entries w src_dir base).
                 add_decision ?archive (getcwd w) (set_order w) name nd = Inr Added"
    have "\<And>d. d \<in> set ?present \<Longrightarrow>
            members (fst (?add d))
              = map ?g (entries (path_join src_dir d) (path_join base d) (?nd d))"
    proof -
      fix d assume d: "d \<in> set ?present"
      have "\<forall>(name, arcname, nd) \<in> set (entries (path_join src_dir d) (path_join base d) (?nd d)).
              add_decision ?archive (getcwd w) (set_order w) name nd = Inr Added"
        using a d unfolding test_data_entries_def by fastforce
      with path_join_nonempty [OF n]
      show "members (fst (?add d))
              = map ?g (entries (path_join src_dir d) (path_join base d) (?nd d))"
        by (rule add_all_added)
    qed
    then have "?ms = concat (map (\<lambda>d. map ?g (entries (path_join src_dir d) (path_join base d)
                                                 (?nd d))) ?present)"
      by (intro arg_cong [where f = concat] map_cong refl)
    also have "\<dots> = map ?g (test_data_entries w src_dir base)"
      by (simp add: test_data_entries_def map_concat comp_def)
    finally show "?ms = map ?g (test_data_entries w src_dir base)" .
  qed
  from c3 c4 c5 have "\<exists>ms. tarball (main w options args) = Some (args ! 0 @ ''.tar.xz'', ms)
             \<and> ms = ?ms
             \<and> (\<forall>ti \<in> set ms.
                   \<exists>directory name arcname nd.
                     directory \<in> set TEST_DIRS
                     \<and> test_dir_present w src_dir directory
                     \<and> (name, arcname, nd)
                         \<in> set (entries (path_join src_dir directory) (path_join base directory)
                                  (?nd directory))
                     \<and> add_decision ?archive (getcwd w) (set_order w) name nd = Inr Added
                     \<and> ti = tar_filter ?archive (gettarinfo arcname nd)
                     \<and> startswith (ti_name ti) (lstrip_slash (path_join base directory)))
             \<and> ((\<forall>(name, arcname, nd) \<in> set (test_data_entries w src_dir base).
                    add_decision ?archive (getcwd w) (set_order w) name nd = Inr Added)
                 \<longrightarrow> ms = map ?g (test_data_entries w src_dir base))"
    by (intro exI [of _ ?ms] conjI refl)
  with c1 c2 show ?thesis
    by (intro conjI)
qed

text \<open>A source tree in which \<open>courgette/testdata\<close> is the only test directory, with
  nothing in it that is skipped.\<close>

theorem missing_test_dirs_are_skipped_witness:
  "returned (main ex_world_test_data ex_options_test_data [''out/chromium-1'']) = Inr 0
   \<and> ''chrome/test/data'' \<in> set TEST_DIRS
   \<and> \<not> test_dir_present ex_world_test_data ''src'' ''chrome/test/data''
   \<and> [CHR 0x22] @ ''src/chrome/test/data'' @ [CHR 0x22] @ '' not present; skipping.''
        \<in> set (stdout (main ex_world_test_data ex_options_test_data [''out/chromium-1'']))
   \<and> test_data_entries ex_world_test_data ''src'' ''chromium-1''
       = [(''src/courgette/testdata'', ''chromium-1/courgette/testdata'',
           Dir ex_stat [(''a.bin'', Reg ex_stat ''aa'')]),
          (''src/courgette/testdata/a.bin'', ''chromium-1/courgette/testdata/a.bin'',
           Reg ex_stat ''aa'')]
   \<and> tarball (main ex_world_test_data ex_options_test_data [''out/chromium-1''])
       = Some (''out/chromium-1.tar.xz'',
               [tar_filter (configured ex_options_test_data ''src'' 1700000000)
                  (gettarinfo ''chromium-1/courgette/testdata''
                     (Dir ex_stat [(''a.bin'', Reg ex_stat ''aa'')])),
                tar_filter (configured ex_options_test_data ''src'' 1700000000)
                  (gettarinfo ''chromium-1/courgette/testdata/a.bin'' (Reg ex_stat ''aa''))])
   \<and> startswith ''chromium-1/courgette/testdata/a.bin''
         (lstrip_slash (path_join ''chromium-1'' ''courgette/testdata''))"
proof -
  let ?out = "main ex_world_test_data ex_options_test_data [''out/chromium-1'']"
  let ?root = "Dir ex_stat
        [(''courgette'', Dir ex_stat [(''testdata'', Dir ex_stat [(''a.bin'', Reg ex_stat ''aa'')])]),
         (''build'',
           Dir ex_stat
             [(''util'', Dir ex_stat [(''LASTCHANGE.committime'', Reg ex_stat ''1700000000'')])])]"
  let ?archive = "configured ex_options_test_data ''src'' 1700000000"
  let ?e1 = "(''src/courgette/testdata'', ''chromium-1/courgette/testdata'',
              Dir ex_stat [(''a.bin'', Reg ex_stat ''aa'')])"
  let ?e2 = "(''src/courgette/testdata/a.bin'', ''chromium-1/courgette/testdata/a.bin'',
              Reg ex_stat ''aa'')"
  have l: "length [''out/chromium-1''] = 1"
    by simp
  have v: "opt_version ex_options_test_data = Some ''125.0''" "''125.0'' \<noteq> []"
    by (simp_all add: more_defs ex_options_def)
  have s: "opt_src_dir ex_options_test_data = Some ''src''"
    by (simp add: more_defs ex_options_def)
  have r: "lstat_src ex_world_test_data ''src'' = Some ?root"
    by (simp add: lstat_src_def more_defs)
  have p: "path_exists ?root"
    by (simp add: path_exists_def)
  have wf: "wf_names ?root"
    by simp
  have t: "read_timestamp ex_world_test_data ''src'' = Inr 1700000000"
    by (simp add: main_defs more_defs path_defs rule_defs)
  have o: "opt_test_data ex_options_test_data"
    by (simp add: more_defs)
  have z: "xz_status ex_world_test_data = 0"
    by (simp add: more_defs)
  have b: "''chromium-1'' = (case opt_basename ex_options_test_data of
                               None \<Rightarrow> basename ([''out/chromium-1''] ! 0)
                             | Some b \<Rightarrow> if b = [] then basename ([''out/chromium-1''] ! 0) else b)"
    by (simp add: more_defs ex_options_def path_defs)
  note c = missing_test_dirs_are_skipped [OF l v s r p wf t o z b]
  have d: "''chrome/test/data'' \<in> set TEST_DIRS"
    by (simp add: TEST_DIRS_def)
  have a: "\<not> test_dir_present ex_world_test_data ''src'' ''chrome/test/data''"
    by (simp add: main_defs more_defs rule_defs)
  have j: "path_join ''src'' ''chrome/test/data'' = ''src/chrome/test/data''"
    by (simp add: path_defs)
  have k: "[CHR 0x22] @ ''src/chrome/test/data'' @ [CHR 0x22] @ '' not present; skipping.''
             \<in> set (stdout ?out)"
    using c d a j by auto
  have e: "test_data_entries ex_world_test_data ''src'' ''chromium-1'' = [?e1, ?e2]"
    by (simp add: test_data_entries_def main_defs more_defs rule_defs path_defs entries.simps)
  have k1: "add_decision ?archive (getcwd ex_world_test_data) (set_order ex_world_test_data)
              ''src/courgette/testdata'' (Dir ex_stat [(''a.bin'', Reg ex_stat ''aa'')]) = Inr Added"
    by (simp add: main_defs more_defs ex_options_def path_defs rule_defs)
  have k2: "add_decision ?archive (getcwd ex_world_test_data) (set_order ex_world_test_data)
              ''src/courgette/testdata/a.bin'' (Reg ex_stat ''aa'') = Inr Added"
    by (simp add: main_defs more_defs ex_options_def path_defs rule_defs)
  have all: "\<forall>(name, arcname, nd) \<in> set (test_data_entries ex_world_test_data ''src'' ''chromium-1'').
               add_decision ?archive (getcwd ex_world_test_data) (set_order ex_world_test_data)
                 name nd = Inr Added"
    unfolding e using k1 k2 by simp
  from c all have m: "tarball ?out
       = Some (''out/chromium-1.tar.xz'',
               map (\<lambda>(name, arcname, nd). tar_filter ?archive (gettarinfo arcname nd))
                 (test_data_entries ex_world_test_data ''src'' ''chromium-1''))"
    by auto
  have m': "tarball ?out
       = Some (''out/chromium-1.tar.xz'',
               [tar_filter ?archive
                  (gettarinfo ''chromium-1/courgette/testdata''
                     (Dir ex_stat [(''a.bin'', Reg ex_stat ''aa'')])),
                tar_filter ?archive
                  (gettarinfo ''chromium-1/courgette/testdata/a.bin'' (Reg ex_stat ''aa''))])"
    using m unfolding e by simp
  have st: "startswith ''chromium-1/courgette/testdata/a.bin''
              (lstrip_slash (path_join ''chromium-1'' ''courgette/testdata''))"
    by (simp add: path_defs)
  from c have "returned ?out = Inr 0"
    by blast
  with d a k e m' st show ?thesis
    by blast
qed

text \<open>
  C8 as stated fails: the test directory \<open>courgette/testdata\<close> exists and holds
  \<open>gen.pyc\<close>; the run succeeds, and the archive does not contain that file, since \<open>add\<close>
  skips every name that ends in \<open>.pyc\<close>.
\<close>

theorem missing_test_dirs_counterexample:
  "length [''out/chromium-1''] = 1
   \<and> opt_test_data ex_options_test_data
   \<and> xz_status ex_world_test_data_pyc = 0
   \<and> read_timestamp ex_world_test_data_pyc ''src'' = Inr 1700000000
   \<and> test_dir_present ex_world_test_data_pyc ''src'' ''courgette/testdata''
   \<and> lstat_below ex_world_test_data_pyc ''src'' ''courgette/testdata/gen.pyc''
       = Some (Reg ex_stat ''code'')
   \<and> returned (main ex_world_test_data_pyc ex_options_test_data [''out/chromium-1'']) = Inr 0
   \<and> map ti_name (snd (the (tarball (main ex_world_test_data_pyc ex_options_test_data
                                       [''out/chromium-1'']))))
       = [''chromium-1/courgette/testdata'', ''chromium-1/courgette/testdata/a.bin'']"
  by (simp add: main_defs more_defs path_defs rule_defs add.simps)

text \<open>
  C9. Two runs with the same options and arguments, started in the same working directory
  over the same source tree, feed the same members in the same order to the compressor. The
  source trees are the same when they agree in what \<open>canon\<close> keeps: names, kinds, contents,
  link texts and modes. So the stream does not depend on the order in which the filesystem
  enumerates a directory, on the owner, group and modification time of the files, on the
  order in which the process iterates over \<open>set(nonessential_dirs) | set(TEST_DIRS)\<close>, nor
  on the exit status of the compressor. The timestamp file is part of the source tree.
\<close>

theorem runs_are_reproducible:
  assumes "map_option canon (src_root w1) = map_option canon (src_root w2)"
    and "getcwd w1 = getcwd w2"
    and "set (set_order w1) = set (set_order w2)"
  shows "tarball (main w1 options args) = tarball (main w2 options args)"
proof -
  have "observed w1 (set_order w1) = observed w2 (set_order w1)"
    using assms(1,2) by (simp add: observed_def)
  moreover have "tarball (main (observed w1 (set_order w1)) options args)
                   = tarball (main w1 options args)"
    by (rule main_observed) simp
  moreover have "tarball (main (observed w2 (set_order w1)) options args)
                   = tarball (main w2 options args)"
    by (rule main_observed) (simp add: assms(3))
  ultimately show ?thesis by simp
qed

text \<open>Two worlds that differ in enumeration order, ownership, modification times,
  iteration order and compressor status.\<close>

theorem runs_are_reproducible_witness:
  "src_root ex_world \<noteq> src_root ex_world_again
   \<and> set_order ex_world \<noteq> set_order ex_world_again
   \<and> map_option canon (src_root ex_world) = map_option canon (src_root ex_world_again)
   \<and> set (set_order ex_world) = set (set_order ex_world_again)
   \<and> tarball (main ex_world ex_options [''out/chromium-1''])
       = tarball (main ex_world_again ex_options [''out/chromium-1''])
   \<and> tarball (main ex_world ex_options [''out/chromium-1'']) \<noteq> None"
proof -
  have d1: "src_root ex_world \<noteq> src_root ex_world_again"
    by (simp add: ex_world_def ex_tree_def again_defs ex_stat_def)
  have d2: "set_order ex_world \<noteq> set_order ex_world_again"
    by (simp add: ex_world_def again_defs ex_order_def nonessential_dirs_def TEST_DIRS_def)
  have h1: "map_option canon (src_root ex_world) = map_option canon (src_root ex_world_again)"
    by (simp add: ex_world_def ex_tree_def again_defs ex_stat_def strip_stat_def
          less_char_def less_eq_char_def)
  have h2: "getcwd ex_world = getcwd ex_world_again"
    by (simp add: ex_world_def again_defs)
  have h3: "set (set_order ex_world) = set (set_order ex_world_again)"
    by (auto simp add: ex_world_def again_defs ex_order_def)
  have l: "length [''out/chromium-1''] = 1"
    by simp
  have v: "opt_version ex_options = Some ''125.0''" "''125.0'' \<noteq> []"
    by (simp_all add: ex_options_def)
  have s: "opt_src_dir ex_options = Some ''src''"
    by (simp add: ex_options_def)
  have r: "lstat_src ex_world ''src'' = Some ex_tree"
    by (simp add: lstat_src_def ex_world_def)
  have p: "path_exists ex_tree"
    by (simp add: path_exists_def ex_tree_def)
  have t: "read_timestamp ex_world ''src'' = Inr 1700000000"
    by (simp add: main_defs path_defs rule_defs)
  have n: "tarball (main ex_world ex_options [''out/chromium-1'']) \<noteq> None"
    using main_valid [OF l v s r p t] by simp
  from runs_are_reproducible [OF h1 h2 h3, of ex_options "[''out/chromium-1'']"] d1 d2 h1 h3 n
  show ?thesis by blast
qed

end
